theory Spec2Isabelle
  imports Main
begin

section \<open>Document trees as JavaScript values\<close>

text \<open>
  A parsed YAML document is a tree of maps, sequences and scalars. The merger works on
  the JavaScript values the YAML reader hands over, so the tree also has the value
  \<open>undefined\<close> (what reading an absent property gives) and the hole of a sparse array
  (what \<open>ret[5] = v\<close> leaves behind in an array of length two). A map is kept as the list
  of its entries in enumeration order.

  Limits of the model, stated once: numbers are integers; object keys that name a member of
  \<open>Object.prototype\<close> and integer-like keys of maps (which JavaScript enumerates first)
  are treated like any other key; two places of a tree never share one object (no YAML
  alias); an array carries no named property, and a map with a key \<open>length\<close> is not
  taken for an array-like object. Where the source would create a value
  outside this model (a named property on an array, a boxed primitive), the operation
  returns \<open>None\<close> here and the merger reports \<open>Unmodelled\<close>.
\<close>

datatype node =
    Undefined
  | Hole
  | Null
  | Bool bool
  | Num int
  | Str string
  | Arr "node list"
  | Obj "(string \<times> node) list"

fun isObject :: "node \<Rightarrow> bool" where
  "isObject (Arr _) = True"
| "isObject (Obj _) = True"
| "isObject _ = False"

fun isArray :: "node \<Rightarrow> bool" where
  "isArray (Arr _) = True"
| "isArray _ = False"

fun truthy :: "node \<Rightarrow> bool" where
  "truthy Undefined = False"
| "truthy Hole = False"
| "truthy Null = False"
| "truthy (Bool b) = b"
| "truthy (Num n) = (n \<noteq> 0)"
| "truthy (Str s) = (s \<noteq> [])"
| "truthy (Arr _) = True"
| "truthy (Obj _) = True"

subsection \<open>Array indices as property keys\<close>

definition digit_chars :: string where
  "digit_chars = ''0123456789''"

fun show_nat :: "nat \<Rightarrow> string" where
  "show_nat n = (if n < 10 then [digit_chars ! n]
                 else show_nat (n div 10) @ [digit_chars ! (n mod 10)])"

declare show_nat.simps [simp del]

definition digit_val :: "char \<Rightarrow> nat" where
  "digit_val c = of_char c - 48"

definition is_digit :: "char \<Rightarrow> bool" where
  "is_digit c = (c \<in> set digit_chars)"

text \<open>A key is an array index when it is the canonical decimal form of a number.\<close>

definition index_of_key :: "string \<Rightarrow> nat option" where
  "index_of_key k =
     (if k \<noteq> [] \<and> list_all is_digit k \<and> (k = ''0'' \<or> hd k \<noteq> CHR ''0'')
      then Some (fold (\<lambda>c a. 10 * a + digit_val c) k 0)
      else None)"

definition unhole :: "node \<Rightarrow> node" where
  "unhole v = (if v = Hole then Undefined else v)"

text \<open>\<open>xs[i] = v\<close> on an array: beyond the end the array grows and the gap is holes.\<close>

definition arr_set :: "node list \<Rightarrow> nat \<Rightarrow> node \<Rightarrow> node list" where
  "arr_set xs i v =
     (if i < length xs then xs[i := v]
      else xs @ replicate (i - length xs) Hole @ [v])"

text \<open>\<open>xs.splice(i, 1)\<close>, for the array it leaves behind.\<close>

definition splice1 :: "node list \<Rightarrow> nat \<Rightarrow> node list" where
  "splice1 xs i = take i xs @ drop (Suc i) xs"

fun indexed :: "nat \<Rightarrow> 'a list \<Rightarrow> (nat \<times> 'a) list" where
  "indexed i [] = []"
| "indexed i (x # xs) = (i, x) # indexed (Suc i) xs"

subsection \<open>Property access\<close>

text \<open>\<open>Object.entries(v)\<close>: own enumerable properties; holes of an array are skipped.\<close>

fun entries :: "node \<Rightarrow> (string \<times> node) list" where
  "entries (Obj kvs) = kvs"
| "entries (Arr xs) =
     map (\<lambda>(i, x). (show_nat i, x)) (filter (\<lambda>(i, x). x \<noteq> Hole) (indexed 0 xs))"
| "entries (Str s) = map (\<lambda>(i, c). (show_nat i, Str [c])) (indexed 0 s)"
| "entries _ = []"

definition keys :: "node \<Rightarrow> string list" where
  "keys v = map fst (entries v)"

fun upd_entry :: "string \<Rightarrow> node \<Rightarrow> (string \<times> node) list \<Rightarrow> (string \<times> node) list" where
  "upd_entry k v [] = [(k, v)]"
| "upd_entry k v ((k', v') # kvs) =
     (if k = k' then (k, v) # kvs else (k', v') # upd_entry k v kvs)"

text \<open>\<open>o[k]\<close> for reading.\<close>

fun get_prop :: "node \<Rightarrow> string \<Rightarrow> node" where
  "get_prop (Obj kvs) k = (case map_of kvs k of None \<Rightarrow> Undefined | Some v \<Rightarrow> v)"
| "get_prop (Arr xs) k =
     (case index_of_key k of
        Some i \<Rightarrow> (if i < length xs then unhole (xs ! i) else Undefined)
      | None \<Rightarrow> (if k = ''length'' then Num (int (length xs)) else Undefined))"
| "get_prop (Str s) k =
     (case index_of_key k of
        Some i \<Rightarrow> (if i < length s then Str [s ! i] else Undefined)
      | None \<Rightarrow> (if k = ''length'' then Num (int (length s)) else Undefined))"
| "get_prop _ k = Undefined"

text \<open>\<open>k in o\<close> for an own property.\<close>

fun has_prop :: "node \<Rightarrow> string \<Rightarrow> bool" where
  "has_prop (Obj kvs) k = (k \<in> set (map fst kvs))"
| "has_prop (Arr xs) k =
     (case index_of_key k of
        Some i \<Rightarrow> i < length xs \<and> xs ! i \<noteq> Hole
      | None \<Rightarrow> k = ''length'')"
| "has_prop _ k = False"

text \<open>\<open>o[k] = v\<close>; \<open>None\<close> where the result is outside the model.\<close>

fun set_prop :: "node \<Rightarrow> string \<Rightarrow> node \<Rightarrow> node option" where
  "set_prop (Obj kvs) k v = Some (Obj (upd_entry k v kvs))"
| "set_prop (Arr xs) k v =
     (case index_of_key k of
        Some i \<Rightarrow> Some (Arr (arr_set xs i v))
      | None \<Rightarrow> None)"
| "set_prop _ k v = None"

text \<open>\<open>delete o[k]\<close>; on an array the element becomes a hole.\<close>

fun delete_prop :: "node \<Rightarrow> string \<Rightarrow> node option" where
  "delete_prop (Obj kvs) k = Some (Obj (filter (\<lambda>(k', v). k' \<noteq> k) kvs))"
| "delete_prop (Arr xs) k =
     (case index_of_key k of
        Some i \<Rightarrow> Some (Arr (if i < length xs then xs[i := Hole] else xs))
      | None \<Rightarrow> Some (Arr xs))"
| "delete_prop _ k = None"

section \<open>The deep merge of lodash\<close>

text \<open>
  \<open>_.merge(object, source)\<close> walks the source's keys. A source value that is a map or a
  sequence is merged recursively into the destination's value under the same key when
  that value is of a fitting kind, and into a fresh container otherwise; any other source
  value is assigned, except that \<open>undefined\<close> never overwrites an existing key. The
  destination is changed in place and returned.
\<close>

definition assignMergeValue :: "node \<Rightarrow> string \<Rightarrow> node \<Rightarrow> node option" where
  "assignMergeValue obj k v =
     (if v \<noteq> Undefined \<or> \<not> has_prop obj k then set_prop obj k v else Some obj)"

text \<open>The container \<open>baseMergeDeep\<close> merges a source value \<open>v\<close> into, given the destination's value.\<close>

definition mergeTarget :: "node \<Rightarrow> node \<Rightarrow> node" where
  "mergeTarget objValue v =
     (if isArray v then (if isArray objValue then objValue else Arr [])
      else (if isObject objValue then objValue else Obj []))"

fun baseMerge :: "node \<Rightarrow> node \<Rightarrow> node option"
  and mergeProps :: "node \<Rightarrow> (string \<times> node) list \<Rightarrow> node option"
  and mergeElems :: "node \<Rightarrow> nat \<Rightarrow> node list \<Rightarrow> node option"
where
  "baseMerge obj (Obj kvs) = mergeProps obj kvs"
| "baseMerge obj (Arr xs) = mergeElems obj 0 xs"
| "baseMerge obj (Str s) =
     fold (\<lambda>(k, v) r. case r of None \<Rightarrow> None | Some ob \<Rightarrow> assignMergeValue ob k v)
       (entries (Str s)) (Some obj)"
| "baseMerge obj Undefined = Some obj"
| "baseMerge obj Hole = Some obj"
| "baseMerge obj Null = Some obj"
| "baseMerge obj (Bool b) = Some obj"
| "baseMerge obj (Num n) = Some obj"
| "mergeProps obj [] = Some obj"
| "mergeProps obj ((k, v) # kvs) =
     (case (if isObject v
            then (case baseMerge (mergeTarget (get_prop obj k) v) v of
                    None \<Rightarrow> None
                  | Some nv \<Rightarrow> assignMergeValue obj k nv)
            else assignMergeValue obj k (unhole v)) of
        None \<Rightarrow> None
      | Some obj' \<Rightarrow> mergeProps obj' kvs)"
| "mergeElems obj i [] = Some obj"
| "mergeElems obj i (v # xs) =
     (case (if isObject v
            then (case baseMerge (mergeTarget (get_prop obj (show_nat i)) v) v of
                    None \<Rightarrow> None
                  | Some nv \<Rightarrow> assignMergeValue obj (show_nat i) nv)
            else assignMergeValue obj (show_nat i) (unhole v)) of
        None \<Rightarrow> None
      | Some obj' \<Rightarrow> mergeElems obj' (Suc i) xs)"

text \<open>
  The entry point: a missing destination becomes a fresh map, a falsy source is skipped.
  A primitive destination would be boxed, which is outside the model.
\<close>

definition lodash_merge :: "node \<Rightarrow> node \<Rightarrow> node option" where
  "lodash_merge object source =
     (case (case object of
              Undefined \<Rightarrow> Some (Obj [])
            | Null \<Rightarrow> Some (Obj [])
            | Obj kvs \<Rightarrow> Some (Obj kvs)
            | Arr xs \<Rightarrow> Some (Arr xs)
            | _ \<Rightarrow> None) of
        None \<Rightarrow> None
      | Some ob \<Rightarrow> (if truthy source then baseMerge ob source else Some ob))"

section \<open>The inclusion key\<close>

text \<open>
  \<open>INCLUDE_PATTERN\<close> is \<^verbatim>\<open>/^\$include(#.*?)?(\/.*?\/)?$/\<close>. The matcher below follows
  the regular expression's backtracking order: the first group is tried before it is
  skipped and grows one character at a time; after it the second group is tried before it
  is skipped, and has to reach the end of the key. A dot matches every character but a
  line terminator (here line feed and carriage return; strings are byte strings, and the
  separators U+2028 and U+2029 are not told apart from other text).
\<close>

definition dot_ok :: "char \<Rightarrow> bool" where
  "dot_ok c = (c \<noteq> CHR 0x0A \<and> c \<noteq> CHR 0x0D)"

definition is_slashed :: "string \<Rightarrow> bool" where
  "is_slashed s =
     (2 \<le> length s \<and> hd s = CHR ''/'' \<and> last s = CHR ''/'' \<and> list_all dot_ok (butlast (tl s)))"

definition tail_match :: "string \<Rightarrow> string option option" where
  "tail_match r = (if is_slashed r then Some (Some r) else if r = [] then Some None else None)"

fun group1_search :: "string \<Rightarrow> string \<Rightarrow> (string \<times> string option) option" where
  "group1_search acc r =
     (case tail_match r of
        Some g2 \<Rightarrow> Some (acc, g2)
      | None \<Rightarrow> (case r of
                  [] \<Rightarrow> None
                | c # cs \<Rightarrow> (if dot_ok c then group1_search (acc @ [c]) cs else None)))"

declare group1_search.simps [simp del]

definition include_match :: "string \<Rightarrow> (string option \<times> string option) option" where
  "include_match key =
     (if take 8 key = ''$include'' then
        (let r = drop 8 key in
         case (case r of
                 c # cs \<Rightarrow> (if c = CHR ''#'' then group1_search [c] cs else None)
               | [] \<Rightarrow> None) of
           Some (g1, g2) \<Rightarrow> Some (Some g1, g2)
         | None \<Rightarrow> (case tail_match r of
                      Some g2 \<Rightarrow> Some (None, g2)
                    | None \<Rightarrow> None))
      else None)"

text \<open>\<open>getKeyPattern\<close>: the second group without its two slashes, \<open>null\<close> when there is none.\<close>

definition getKeyPattern :: "string \<Rightarrow> string option" where
  "getKeyPattern key =
     (case include_match key of
        None \<Rightarrow> None
      | Some (g1, None) \<Rightarrow> None
      | Some (g1, Some pat) \<Rightarrow> Some (take (length pat - 2) (drop 1 pat)))"

subsection \<open>Values the copy shares with the tree it is made from\<close>

text \<open>
  The loop of \<open>mergeRefs\<close> copies every map and sequence it walks, with one exception:
  under the key \<^verbatim>\<open>$ref\<close>, under an inclusion key and under \<^verbatim>\<open>discriminator\<close> it
  stores the value it found (line 53) and, unless a handler replaces it, the copy then
  holds the very object of the tree it was made from. \<open>kept_key\<close> names these keys;
  \<open>has_kept v\<close> says that \<open>v\<close> has a map or sequence under such a key, at any depth;
  \<open>kept_same before after\<close> says that every such map or sequence of \<open>before\<close> is
  found unchanged at the same place of \<open>after\<close>. A tree without such values shares nothing
  with its copies, and a change in place that leaves them as they were reaches no other
  tree.
\<close>

definition kept_key :: "string \<Rightarrow> bool" where
  "kept_key k =
     (if k = ''$ref'' then True else if k = ''discriminator'' then True
      else include_match k \<noteq> None)"

fun has_kept :: "node \<Rightarrow> bool"
  and has_kept_props :: "(string \<times> node) list \<Rightarrow> bool"
  and has_kept_elems :: "node list \<Rightarrow> bool"
where
  "has_kept (Obj kvs) = has_kept_props kvs"
| "has_kept (Arr xs) = has_kept_elems xs"
| "has_kept Undefined = False"
| "has_kept Hole = False"
| "has_kept Null = False"
| "has_kept (Bool b) = False"
| "has_kept (Num n) = False"
| "has_kept (Str s) = False"
| "has_kept_props [] = False"
| "has_kept_props ((k, v) # kvs) =
     (if kept_key k \<and> isObject v then True
      else if has_kept v then True
      else has_kept_props kvs)"
| "has_kept_elems [] = False"
| "has_kept_elems (v # xs) = (if has_kept v then True else has_kept_elems xs)"

fun kept_same :: "node \<Rightarrow> node \<Rightarrow> bool"
  and kept_same_props :: "(string \<times> node) list \<Rightarrow> node \<Rightarrow> bool"
  and kept_same_elems :: "nat \<Rightarrow> node list \<Rightarrow> node \<Rightarrow> bool"
where
  "kept_same (Obj kvs) after = kept_same_props kvs after"
| "kept_same (Arr xs) after = kept_same_elems 0 xs after"
| "kept_same Undefined after = True"
| "kept_same Hole after = True"
| "kept_same Null after = True"
| "kept_same (Bool b) after = True"
| "kept_same (Num n) after = True"
| "kept_same (Str s) after = True"
| "kept_same_props [] after = True"
| "kept_same_props ((k, v) # kvs) after =
     ((if kept_key k then (if isObject v then get_prop after k = v else True)
       else kept_same v (get_prop after k))
      \<and> kept_same_props kvs after)"
| "kept_same_elems i [] after = True"
| "kept_same_elems i (v # xs) after =
     (kept_same v (get_prop after (show_nat i)) \<and> kept_same_elems (Suc i) xs after)"

section \<open>Outcomes\<close>

text \<open>
  A run of the merger ends with a value, with an exception, or not at all. The kinds of
  exception are those of the specification (the merger itself raises one, the error of
  line 171, and passes on what the loader and the fetcher raise);
  \<open>TypeError\<close> is what JavaScript itself throws
  (a property read on \<open>null\<close>, a path operation on a value that is no string), and
  \<open>Unmodelled\<close> marks a run that leaves the model of the previous sections. The
  functions below count their calls down from a bound, and \<open>None\<close> is a run that needs more
  calls than the bound.
\<close>

datatype failure =
  LoadError | FetchError | StructuralMergeError | UnresolvableReferenceError | TypeError | Unmodelled

type_synonym 'a outcome = "(failure + 'a) option"

definition ok :: "'a \<Rightarrow> 'a outcome" where
  "ok x = Some (Inr x)"

definition throw :: "failure \<Rightarrow> 'a outcome" where
  "throw f = Some (Inl f)"

definition bind :: "'a outcome \<Rightarrow> ('a \<Rightarrow> 'b outcome) \<Rightarrow> 'b outcome" where
  "bind r f = (case r of None \<Rightarrow> None | Some (Inl x) \<Rightarrow> Some (Inl x) | Some (Inr a) \<Rightarrow> f a)"

definition or_throw :: "failure \<Rightarrow> 'a option \<Rightarrow> 'a outcome" where
  "or_throw f r = (case r of None \<Rightarrow> throw f | Some a \<Rightarrow> ok a)"

section \<open>Collaborators\<close>

text \<open>
  The merger requires \<^verbatim>\<open>./yaml\<close>, \<^verbatim>\<open>./ref\<close>, \<^verbatim>\<open>./http\<close>, \<^verbatim>\<open>./util\<close> and
  \<^verbatim>\<open>./components\<close>, and the libraries \<^verbatim>\<open>path\<close>, \<^verbatim>\<open>url\<close> and \<^verbatim>\<open>glob\<close>. What
  it calls in them and what this development does not define is a field of the record
  \<open>env\<close>, so every theorem holds for every behaviour of these functions. A reader that
  fails returns \<open>None\<close>.
\<close>

record parsed =
  isHttp :: bool
  isLocal :: bool
  href :: string
  hrefWoHash :: string
  hash :: string

record component =
  kind :: string
  canonicalKey :: string
  assignedName :: string
  content :: node

record env =
  parseUrl :: "node \<Rightarrow> parsed option"
  getRefType :: "string \<Rightarrow> string"
  shouldInclude :: "string \<Rightarrow> bool"
  readYAML :: "string \<Rightarrow> node option"
  download :: "string \<Rightarrow> node option"
  sliceObject :: "node \<Rightarrow> string \<Rightarrow> node"
  regex_test :: "string \<Rightarrow> string \<Rightarrow> bool"
  glob_sync :: "string \<Rightarrow> string list"
  path_dirname :: "string \<Rightarrow> string"
  path_join :: "string \<Rightarrow> string \<Rightarrow> string"
  path_relative :: "string \<Rightarrow> string \<Rightarrow> string"
  path_stem :: "string \<Rightarrow> string"
  url_resolve :: "string \<Rightarrow> string \<Rightarrow> string"
  path_resolve_cwd :: "string \<Rightarrow> string"
  manager_get :: "component list \<Rightarrow> node \<Rightarrow> bool"
  default_name :: "string \<Rightarrow> string"
  resolve_names :: "component list \<Rightarrow> (string \<times> string) list"

text \<open>
  \<open>parseUrl\<close> is given any value and returns \<open>None\<close> where it throws; \<open>path_stem p\<close> is
  \<open>Path.basename(p, Path.extname(p))\<close>; \<open>path_resolve_cwd p\<close> is
  \<open>Path.resolve(process.cwd(), p)\<close>; \<open>manager_get cs v\<close> is the truth value of
  \<open>manager.get(v)\<close> on a registry holding \<open>cs\<close>; \<open>regex_test pat k\<close> says whether key
  \<open>k\<close> matches the pattern \<open>pat\<close>; \<open>resolve_names cs\<close> is the name table a
  \<open>ComponentNameResolver\<close> built from \<open>cs\<close> holds, keyed by canonical key.
\<close>

section \<open>The component registry\<close>

text \<open>
  The registry of one pass. Besides the components and the name table it records two things
  the source keeps in no variable: \<open>merge_log\<close>, the canonical key of the component at each
  execution of the assignment \<^verbatim>\<open>cmp.content = await this.mergeRefs(...)\<close>, latest first; and
  \<open>active\<close>, the components whose content is being merged. Neither influences a result,
  except that a reference to an active component whose content has a map or sequence under
  a kept key ends the run as \<open>Unmodelled\<close>: the source would then walk a content whose
  shared values are changed in place while it is walked, and trees here are values. A
  reference to any other active component is followed as the source follows it, and a
  chain of such references that never ends is a run that does not return.
\<close>

record manager =
  components :: "component list"
  names :: "(string \<times> string) list"
  merge_log :: "string list"
  active :: "string list"

definition new_manager :: "(string \<times> string) list \<Rightarrow> manager" where
  "new_manager tbl = \<lparr>components = [], names = tbl, merge_log = [], active = []\<rparr>"

definition find_component :: "manager \<Rightarrow> string \<Rightarrow> component option" where
  "find_component m key = find (\<lambda>c. canonicalKey c = key) (components m)"

text \<open>
  Modelled from the spec: \<open>ComponentManager.getOrCreate\<close> of \<^verbatim>\<open>./components\<close>, which is
  not among the sources. It returns the component registered under the canonical key if
  there is one; otherwise it creates one, named by the name table or else by the key's
  terminal segment, registers it and returns it. The new component's content is the target
  as loaded (fetched for a remote target, read for a file) and cut at the pointer: this is
  what \<open>handleRef\<close> reads from \<open>cmp.content\<close> before it merges it.
\<close>

definition getOrCreate :: "env \<Rightarrow> manager \<Rightarrow> string \<Rightarrow> string \<Rightarrow> (component \<times> manager) outcome" where
  "getOrCreate e m refType key =
     (case find_component m key of
        Some c \<Rightarrow> ok (c, m)
      | None \<Rightarrow>
          bind (or_throw TypeError (parseUrl e (Str key))) (\<lambda>p.
          bind (if isHttp p then or_throw FetchError (download e (hrefWoHash p))
                else or_throw LoadError (readYAML e (hrefWoHash p))) (\<lambda>doc.
          let c = \<lparr>kind = refType, canonicalKey = key,
                   assignedName = (case map_of (names m) key of
                                     Some nm \<Rightarrow> nm
                                   | None \<Rightarrow> default_name e key),
                   content = sliceObject e doc (hash p)\<rparr>
          in ok (c, m\<lparr>components := components m @ [c]\<rparr>))))"

text \<open>Modelled from the spec: \<open>Component.getLocalRef\<close>, the pointer \<^verbatim>\<open>#/components/<kind>/<name>\<close>.\<close>

definition getLocalRef :: "component \<Rightarrow> string" where
  "getLocalRef c = ''#/components/'' @ kind c @ ''/'' @ assignedName c"

text \<open>The assignment \<open>cmp.content = v\<close> on the component registered under a key.\<close>

definition set_content :: "manager \<Rightarrow> string \<Rightarrow> node \<Rightarrow> manager" where
  "set_content m key v =
     m\<lparr>components := map (\<lambda>c. if canonicalKey c = key then c\<lparr>content := v\<rparr> else c) (components m),
       merge_log := key # merge_log m\<rparr>"

text \<open>
  Modelled from the spec: \<open>ComponentManager.getComponentsSection\<close>, the registry as the map
  from kind to the map from assigned name to content.
\<close>

definition section_add :: "component \<Rightarrow> (string \<times> node) list \<Rightarrow> (string \<times> node) list" where
  "section_add c sec =
     upd_entry (kind c)
       (Obj (upd_entry (assignedName c) (content c) (entries (get_prop (Obj sec) (kind c))))) sec"

definition getComponentsSection :: "manager \<Rightarrow> node" where
  "getComponentsSection m = Obj (fold section_add (components m) [])"

text \<open>
  Modelled from the spec: \<open>filterObject\<close> of \<^verbatim>\<open>./util\<close>. With a pattern it retains the
  keys of a map that match it; without one it returns its argument.
\<close>

definition filterObject :: "env \<Rightarrow> node \<Rightarrow> string option \<Rightarrow> node" where
  "filterObject e v keyPattern =
     (case keyPattern of
        None \<Rightarrow> v
      | Some pat \<Rightarrow> (case v of
                      Obj kvs \<Rightarrow> Obj (filter (\<lambda>(k, x). regex_test e pat k) kvs)
                    | _ \<Rightarrow> v))"

subsection \<open>Two readings of the registry lookup\<close>

text \<open>
  Modelled from the spec: \<open>ComponentManager.get\<close> of \<^verbatim>\<open>./components\<close>, which is not
  among the sources. The specification calls it the lookup of the cycle guard, by the
  reference string, and does not say what the string is compared with. It may be the short
  local pointer that stands at a reference site once it is resolved
  (\<open>lookup_by_pointer\<close>), or the canonical key a component is registered under
  (\<open>lookup_by_key\<close>). The merger takes the lookup from the environment; these two are
  used to run it.
\<close>

definition lookup_by_pointer :: "component list \<Rightarrow> node \<Rightarrow> bool" where
  "lookup_by_pointer cs v = list_ex (\<lambda>c. Str (getLocalRef c) = v) cs"

definition lookup_by_key :: "component list \<Rightarrow> node \<Rightarrow> bool" where
  "lookup_by_key cs v = list_ex (\<lambda>c. Str (canonicalKey c) = v) cs"

section \<open>The merger\<close>

definition put_prop :: "node \<Rightarrow> string \<Rightarrow> node \<Rightarrow> node" where
  "put_prop obj k v = (case set_prop obj k v of Some ob \<Rightarrow> ob | None \<Rightarrow> obj)"

definition elems :: "node \<Rightarrow> node list" where
  "elems v = (case v of Arr xs \<Rightarrow> xs | _ \<Rightarrow> [])"

text \<open>
  The target of a reference that is neither remote nor same-document, relative to the
  current file (the same four lines in \<open>handleRef\<close> and \<open>handleInclude\<close>). The path
  functions throw on a value that is no string.
\<close>

definition relTarget :: "env \<Rightarrow> parsed \<Rightarrow> node \<Rightarrow> string outcome" where
  "relTarget e pFile val =
     (case val of
        Str v \<Rightarrow>
          ok (if isHttp pFile
              then url_resolve e (path_dirname e (hrefWoHash pFile) @ ''/'') v
              else path_join e (path_dirname e (hrefWoHash pFile)) v)
      | _ \<Rightarrow> throw TypeError)"

text \<open>
  The end of \<open>handleInclude\<close>, from \<^verbatim>\<open>if (_.isArray(merged))\<close> on. The first component of
  the result is the value \<open>handleInclude\<close> returns, the second is the object \<open>ret\<close> the
  caller passed, as the call leaves it: \<open>ret.concat(merged)\<close> and \<open>ret = merged\<close> bind
  the local variable only, \<open>_.merge(ret, filtered)\<close> and \<open>delete ret[key]\<close> change the
  caller's object.
\<close>

definition placeInclude :: "env \<Rightarrow> node \<Rightarrow> string \<Rightarrow> node \<Rightarrow> (node \<times> node) outcome" where
  "placeInclude e ret key merged =
     (if isArray merged then
        (if isArray ret then ok (Arr (elems ret @ elems merged), ret)
         else if length (keys ret) = 1 then ok (merged, ret)
         else throw StructuralMergeError)
      else
        (let filtered = filterObject e merged (getKeyPattern key) in
         bind (or_throw Unmodelled (lodash_merge ret filtered)) (\<lambda>r1.
         bind (or_throw Unmodelled (delete_prop r1 key)) (\<lambda>r2.
         ok (r2, r2)))))"

text \<open>
  \<open>mergeRefs\<close> returns the new tree together with its argument as the call leaves it, since
  \<open>handleDiscriminator\<close> writes into the tree it is given. \<open>mergeEntries\<close> is the loop
  of \<open>mergeRefs\<close> over the entries taken at its start, \<open>includeGlob\<close> the loop of
  \<open>handleInclude\<close> over the matched files, \<open>discriminatorEntries\<close> the loop of
  \<open>handleDiscriminator\<close> over the mapping. \<open>handleRef\<close> and \<open>handleDiscriminator\<close> return the
  object they change in place. Where a reference or an inclusion changes in place a map or
  sequence that the copy shares with the input (line 178 merges the included content into
  the copy, values under kept keys included), the loop ends as \<open>Unmodelled\<close>: the input
  would no longer be the tree the model holds.
\<close>

function (sequential) mergeRefs :: "nat \<Rightarrow> env \<Rightarrow> manager \<Rightarrow> node \<Rightarrow> string \<Rightarrow> string \<Rightarrow> ((node \<times> node) \<times> manager) outcome"
  and mergeEntries :: "nat \<Rightarrow> env \<Rightarrow> manager \<Rightarrow> node \<Rightarrow> node \<Rightarrow> (string \<times> node) list \<Rightarrow> string \<Rightarrow> string
                        \<Rightarrow> ((node \<times> node) \<times> manager) outcome"
  and handleRef :: "nat \<Rightarrow> env \<Rightarrow> manager \<Rightarrow> node \<Rightarrow> string \<Rightarrow> node \<Rightarrow> string \<Rightarrow> string \<Rightarrow> (node \<times> manager) outcome"
  and handleInclude :: "nat \<Rightarrow> env \<Rightarrow> manager \<Rightarrow> node \<Rightarrow> string \<Rightarrow> node \<Rightarrow> string \<Rightarrow> string
                         \<Rightarrow> ((node \<times> node) \<times> manager) outcome"
  and includeGlob :: "nat \<Rightarrow> env \<Rightarrow> manager \<Rightarrow> node \<Rightarrow> string \<Rightarrow> string list \<Rightarrow> string \<Rightarrow> string \<Rightarrow> (node \<times> manager) outcome"
  and handleDiscriminator :: "nat \<Rightarrow> env \<Rightarrow> manager \<Rightarrow> node \<Rightarrow> string \<Rightarrow> string \<Rightarrow> (node \<times> manager) outcome"
  and discriminatorEntries :: "nat \<Rightarrow> env \<Rightarrow> manager \<Rightarrow> node \<Rightarrow> (string \<times> node) list \<Rightarrow> string \<Rightarrow> string
                                \<Rightarrow> (node \<times> manager) outcome"
where
  "mergeRefs 0 e m obj file jsonPath = None"
| "mergeRefs (Suc n) e m obj file jsonPath =
     (if \<not> isObject obj then ok ((obj, obj), m)
      else mergeEntries n e m (if isArray obj then Arr [] else Obj []) obj (entries obj) file jsonPath)"

| "mergeEntries 0 e m ret obj es file jsonPath = None"
| "mergeEntries (Suc n) e m ret obj [] file jsonPath = ok ((ret, obj), m)"
| "mergeEntries (Suc n) e m ret obj ((key, val) # es) file jsonPath =
     bind (or_throw Unmodelled (set_prop ret key val)) (\<lambda>ret1.
     if key = ''$ref'' then
       bind (handleRef n e m ret1 key val file jsonPath) (\<lambda>(ret2, m2).
       if kept_same ret1 ret2 then mergeEntries n e m2 ret2 obj es file jsonPath
       else throw Unmodelled)
     else if include_match key \<noteq> None then
       bind (handleInclude n e m ret1 key val file jsonPath) (\<lambda>((returned, inplace), m2).
       if kept_same ret1 inplace then mergeEntries n e m2 returned obj es file jsonPath
       else throw Unmodelled)
     else if key = ''discriminator'' then
       bind (handleDiscriminator n e m val file jsonPath) (\<lambda>(val', m2).
       mergeEntries n e m2 (put_prop ret1 key val') (put_prop obj key val') es file jsonPath)
     else
       bind (mergeRefs n e m val file (jsonPath @ ''.'' @ key)) (\<lambda>((merged, val'), m2).
       bind (if isArray ret1 \<and> isArray merged then
               bind (or_throw Unmodelled (index_of_key key)) (\<lambda>i.
               ok (Arr (splice1 (elems ret1) i @ elems merged)))
             else or_throw Unmodelled (set_prop ret1 key merged)) (\<lambda>ret2.
       mergeEntries n e m2 ret2 (put_prop obj key val') es file jsonPath)))"

| "handleRef 0 e m ret key val file jsonPath = None"
| "handleRef (Suc n) e m ret key val file jsonPath =
     bind (or_throw TypeError (parseUrl e val)) (\<lambda>pRef.
     bind (or_throw TypeError (parseUrl e (Str file))) (\<lambda>pFile.
     let refType = getRefType e jsonPath in
     if shouldInclude e refType then
       bind (handleInclude n e m ret key val file jsonPath) (\<lambda>((returned, inplace), m2).
       ok (inplace, m2))
     else
       bind (if isHttp pRef then ok (Some (href pRef, hrefWoHash pRef))
             else if isLocal pRef then
               (if manager_get e (components m) val then ok None
                else ok (Some (hrefWoHash pFile @ hash pRef, hrefWoHash pFile)))
             else
               bind (relTarget e pFile val) (\<lambda>target.
               bind (or_throw TypeError (parseUrl e (Str target))) (\<lambda>parsedTarget.
               ok (Some (target, hrefWoHash parsedTarget))))) (\<lambda>sel.
       case sel of
         None \<Rightarrow> ok (ret, m)
       | Some (target, nextFile) \<Rightarrow>
           bind (getOrCreate e m refType target) (\<lambda>(cmp, m1).
           bind (or_throw Unmodelled (set_prop ret key (Str (getLocalRef cmp)))) (\<lambda>ret'.
           if target \<in> set (active m1) \<and> has_kept (content cmp) then throw Unmodelled
           else
             bind (mergeRefs n e (m1\<lparr>active := target # active m1\<rparr>) (content cmp) nextFile jsonPath)
               (\<lambda>((merged, old), m2).
             ok (ret', set_content (m2\<lparr>active := active m1\<rparr>) target merged)))))))"

| "handleInclude 0 e m ret key val file jsonPath = None"
| "handleInclude (Suc n) e m ret key val file jsonPath =
     bind (or_throw TypeError (parseUrl e val)) (\<lambda>pRef.
     bind (or_throw TypeError (parseUrl e (Str file))) (\<lambda>pFile.
     bind (if isHttp pRef then
             bind (or_throw FetchError (download e (hrefWoHash pRef))) (\<lambda>cont.
             ok (Some (cont, hrefWoHash pRef, m)))
           else if isLocal pRef then
             (if manager_get e (components m) val then ok None
              else
                bind (or_throw LoadError (readYAML e file)) (\<lambda>cont.
                ok (Some (cont, hrefWoHash pFile, m))))
           else
             bind (relTarget e pFile val) (\<lambda>target.
             bind (or_throw TypeError (parseUrl e (Str target))) (\<lambda>parsedTarget.
             if isHttp parsedTarget then
               bind (or_throw FetchError (download e (hrefWoHash parsedTarget))) (\<lambda>cont.
               ok (Some (cont, hrefWoHash parsedTarget, m)))
             else
               (let matchedFiles =
                      map (path_relative e (path_dirname e (hrefWoHash pFile)))
                        (glob_sync e (hrefWoHash parsedTarget))
                in if length matchedFiles > 1 then
                     bind (includeGlob n e m (Obj []) key matchedFiles file jsonPath) (\<lambda>(cont, m1).
                     ok (Some (cont, hrefWoHash parsedTarget, m1)))
                   else
                     bind (or_throw LoadError (readYAML e (hrefWoHash parsedTarget))) (\<lambda>cont.
                     ok (Some (cont, hrefWoHash parsedTarget, m))))))) (\<lambda>loaded.
     case loaded of
       None \<Rightarrow> ok ((ret, ret), m)
     | Some (cont, nextFile, m1) \<Rightarrow>
         (let sliced = sliceObject e cont (hash pRef) in
          bind (mergeRefs n e m1 sliced nextFile jsonPath) (\<lambda>((merged, old), m2).
          bind (placeInclude e ret key merged) (\<lambda>r. ok (r, m2)))))))"

| "includeGlob 0 e m cont key mfs file jsonPath = None"
| "includeGlob (Suc n) e m cont key [] file jsonPath = ok (cont, m)"
| "includeGlob (Suc n) e m cont key (mf # mfs) file jsonPath =
     (let basename = path_stem e mf in
      bind (handleInclude n e m (Obj [(key, Str mf)]) key (Str mf) file (jsonPath @ ''.'' @ basename))
        (\<lambda>((returned, inplace), m2).
      bind (or_throw Unmodelled (set_prop cont basename returned)) (\<lambda>cont'.
      includeGlob n e m2 cont' key mfs file jsonPath)))"

| "handleDiscriminator 0 e m val file jsonPath = None"
| "handleDiscriminator (Suc n) e m val file jsonPath =
     (if val = Null \<or> val = Undefined then throw TypeError
      else if \<not> truthy (get_prop val ''mapping'') then ok (val, m)
      else
        bind (discriminatorEntries n e m (get_prop val ''mapping'')
                (entries (get_prop val ''mapping'')) file jsonPath) (\<lambda>(mapping', m2).
        bind (or_throw Unmodelled (set_prop val ''mapping'' mapping')) (\<lambda>val'.
        ok (val', m2))))"

| "discriminatorEntries 0 e m mapping es file jsonPath = None"
| "discriminatorEntries (Suc n) e m mapping [] file jsonPath = ok (mapping, m)"
| "discriminatorEntries (Suc n) e m mapping ((mkey, mval) # es) file jsonPath =
     bind (or_throw TypeError (parseUrl e mval)) (\<lambda>parsedRef.
     if isLocal parsedRef \<and> manager_get e (components m) mval then
       discriminatorEntries n e m mapping es file jsonPath
     else if truthy mval then
       bind (handleRef n e m mapping mkey mval file (jsonPath @ ''.discriminator.'' @ mkey))
         (\<lambda>(mapping', m2).
       discriminatorEntries n e m2 mapping' es file jsonPath)
     else discriminatorEntries n e m mapping es file jsonPath)"

  by pat_completeness auto

termination
  by (relation "measure (case_sum (case_sum fst (case_sum fst fst))
                                   (case_sum (case_sum fst fst) (case_sum fst fst)))")
     simp_all

text \<open>
  \<open>merge\<close>: two passes over the document, the second with the names the first one's
  components resolve to, then the components section is merged into the result. The
  second component of the result is the caller's document as the call leaves it; a
  final merge that changes a value the result shares with that document ends as
  \<open>Unmodelled\<close>.
\<close>

definition merge :: "nat \<Rightarrow> env \<Rightarrow> node \<Rightarrow> string \<Rightarrow> (node \<times> node) outcome" where
  "merge n e doc inputFile =
     (let currentFile = path_resolve_cwd e inputFile in
      bind (mergeRefs n e (new_manager []) doc currentFile ''$'') (\<lambda>((ret1, doc1), m1).
      let nameResolver = resolve_names e (components m1) in
      bind (mergeRefs n e (new_manager nameResolver) doc1 currentFile ''$'') (\<lambda>((ret2, doc2), m2).
      case ret2 of
        Obj kvs \<Rightarrow>
          bind (or_throw Unmodelled
                  (lodash_merge (get_prop ret2 ''components'') (getComponentsSection m2))) (\<lambda>c.
          if kept_same (get_prop ret2 ''components'') c
          then ok (Obj (upd_entry ''components'' c kvs), doc2)
          else throw Unmodelled)
      | Arr xs \<Rightarrow> throw Unmodelled
      | _ \<Rightarrow> throw TypeError)))"

subsection \<open>The stages of an inclusion\<close>

text \<open>
  Two names for parts of \<open>handleInclude\<close>, to state what it does with the tree it
  merged. \<open>includeLoad\<close> is its if-cascade that loads the content (\<open>None\<close>: the cycle
  guard returned early); \<open>includeMerged\<close> is everything up to
  \<^verbatim>\<open>const merged = await this.mergeRefs(sliced, nextFile, jsonPath)\<close>.
\<close>

definition includeLoad :: "nat \<Rightarrow> env \<Rightarrow> manager \<Rightarrow> string \<Rightarrow> node \<Rightarrow> string \<Rightarrow> string \<Rightarrow> parsed \<Rightarrow> parsed
                             \<Rightarrow> (node \<times> string \<times> manager) option outcome" where
  "includeLoad n e m key val file jsonPath pRef pFile =
     (if isHttp pRef then
        bind (or_throw FetchError (download e (hrefWoHash pRef))) (\<lambda>cont.
        ok (Some (cont, hrefWoHash pRef, m)))
      else if isLocal pRef then
        (if manager_get e (components m) val then ok None
         else
           bind (or_throw LoadError (readYAML e file)) (\<lambda>cont.
           ok (Some (cont, hrefWoHash pFile, m))))
      else
        bind (relTarget e pFile val) (\<lambda>target.
        bind (or_throw TypeError (parseUrl e (Str target))) (\<lambda>parsedTarget.
        if isHttp parsedTarget then
          bind (or_throw FetchError (download e (hrefWoHash parsedTarget))) (\<lambda>cont.
          ok (Some (cont, hrefWoHash parsedTarget, m)))
        else
          (let matchedFiles =
                 map (path_relative e (path_dirname e (hrefWoHash pFile)))
                   (glob_sync e (hrefWoHash parsedTarget))
           in if length matchedFiles > 1 then
                bind (includeGlob n e m (Obj []) key matchedFiles file jsonPath) (\<lambda>(cont, m1).
                ok (Some (cont, hrefWoHash parsedTarget, m1)))
              else
                bind (or_throw LoadError (readYAML e (hrefWoHash parsedTarget))) (\<lambda>cont.
                ok (Some (cont, hrefWoHash parsedTarget, m)))))))"

definition includeMerged :: "nat \<Rightarrow> env \<Rightarrow> manager \<Rightarrow> string \<Rightarrow> node \<Rightarrow> string \<Rightarrow> string
                               \<Rightarrow> (node \<times> manager) option outcome" where
  "includeMerged n e m key val file jsonPath =
     bind (or_throw TypeError (parseUrl e val)) (\<lambda>pRef.
     bind (or_throw TypeError (parseUrl e (Str file))) (\<lambda>pFile.
     bind (includeLoad n e m key val file jsonPath pRef pFile) (\<lambda>loaded.
     case loaded of
       None \<Rightarrow> ok None
     | Some (cont, nextFile, m1) \<Rightarrow>
         bind (mergeRefs n e m1 (sliceObject e cont (hash pRef)) nextFile jsonPath)
           (\<lambda>((merged, old), m2). ok (Some (merged, m2))))))"

subsection \<open>Paths into a merged map\<close>

text \<open>
  To say which side of a deep merge prevails: \<open>get_path v ks\<close> follows the keys \<open>ks\<close>
  down from \<open>v\<close>; \<open>merge_dest\<close> is the container lodash merges a source map into;
  \<open>wins_path dst src ks\<close> says that \<open>ks\<close> leads, in the source \<open>src\<close>, through maps with
  distinct keys to a value that is neither a container nor \<open>undefined\<close>, and that the
  destination \<open>dst\<close> has no sequence along the same keys.
\<close>

fun get_path :: "node \<Rightarrow> string list \<Rightarrow> node" where
  "get_path v [] = v"
| "get_path v (k # ks) = get_path (get_prop v k) ks"

definition scalar :: "node \<Rightarrow> bool" where
  "scalar v = (\<not> isObject v \<and> v \<noteq> Undefined \<and> v \<noteq> Hole)"

definition merge_dest :: "node \<Rightarrow> node" where
  "merge_dest v = (if isObject v then v else Obj [])"

fun wins_path :: "node \<Rightarrow> node \<Rightarrow> string list \<Rightarrow> bool" where
  "wins_path dst src [] = False"
| "wins_path dst src (k # ks) =
     (case src of
        Obj s \<Rightarrow>
          distinct (map fst s) \<and> \<not> isArray dst \<and>
          (case map_of s k of
             None \<Rightarrow> False
           | Some sv \<Rightarrow> if ks = [] then scalar sv
                       else wins_path (get_prop (merge_dest dst) k) sv ks)
      | _ \<Rightarrow> False)"

section \<open>A sample environment\<close>

text \<open>
  One concrete choice of the collaborators, used to run the merger on examples: a
  directory \<^verbatim>\<open>/d\<close> with a handful of files (\<^verbatim>\<open>root.yaml\<close> is the document
  \<open>sample_pet_doc\<close>), references that are remote when they start
  with \<^verbatim>\<open>http\<close> and same-document when they start with \<^verbatim>\<open>#\<close>, pointers of
  segments separated by slashes, every position a reusable-schema position, the registry
  lookup by local pointer, and patterns that are a substring or, after \<^verbatim>\<open>^\<close>,
  a prefix.
\<close>

definition sample_parseUrl :: "node \<Rightarrow> parsed option" where
  "sample_parseUrl v =
     (case v of
        Str s \<Rightarrow> Some \<lparr>isHttp = (take 4 s = ''http''), isLocal = (take 1 s = ''#''), href = s,
                       hrefWoHash = takeWhile (\<lambda>c. c \<noteq> CHR ''#'') s,
                       hash = dropWhile (\<lambda>c. c \<noteq> CHR ''#'') s\<rparr>
      | _ \<Rightarrow> None)"

definition sample_pet_doc :: node where
  "sample_pet_doc =
     Obj [(''Pet'', Obj [(''type'', Str ''object''),
                         (''discriminator'',
                            Obj [(''propertyName'', Str ''type''),
                                 (''mapping'', Obj [(''cat'', Str ''Cat.yaml'')])])])]"

text \<open>
  Three more documents of the sample directory: \<^verbatim>\<open>s.yaml\<close> with a schema \<^verbatim>\<open>B\<close> and a
  schema \<^verbatim>\<open>Node\<close> that refers to itself by the pointer \<^verbatim>\<open>#/Node\<close>; \<^verbatim>\<open>node.yaml\<close>
  with a schema in its own components section that refers to itself by the pointer it
  has there; \<^verbatim>\<open>disc.yaml\<close> with nothing but a discriminator.
\<close>

definition sample_s_doc :: node where
  "sample_s_doc =
     Obj [(''B'', Obj [(''type'', Str ''string'')]),
          (''Node'', Obj [(''next'', Obj [(''$ref'', Str ''#/Node'')])])]"

definition sample_node_doc :: node where
  "sample_node_doc =
     Obj [(''root'', Obj [(''$ref'', Str ''#/components/schemas/Node'')]),
          (''components'',
             Obj [(''schemas'',
                Obj [(''Node'',
                   Obj [(''next'', Obj [(''$ref'', Str ''#/components/schemas/Node'')])])])])]"

definition sample_files :: "(string \<times> node) list" where
  "sample_files =
     [(''/d/root.yaml'', sample_pet_doc),
      (''/d/s.yaml'', sample_s_doc),
      (''/d/node.yaml'', sample_node_doc),
      (''/d/disc.yaml'', Obj [(''discriminator'', Obj [(''x'', Num 1)])]),
      (''/d/Error.yaml'', Obj [(''type'', Str ''object'')]),
      (''/d/Cat.yaml'', Obj [(''description'', Str ''A cat'')]),
      (''/d/list.yaml'', Arr [Str ''x'', Str ''y'']),
      (''/d/props.yaml'',
         Obj [(''info'', Obj [(''title'', Str ''T'')]), (''id'', Num 1), (''idx'', Num 2),
              (''name'', Str ''n'')])]"

definition last_segment :: "string \<Rightarrow> string" where
  "last_segment s = rev (takeWhile (\<lambda>c. c \<noteq> CHR ''/'') (rev s))"

definition sample_dirname :: "string \<Rightarrow> string" where
  "sample_dirname p = rev (drop 1 (dropWhile (\<lambda>c. c \<noteq> CHR ''/'') (rev p)))"

definition sample_stem :: "string \<Rightarrow> string" where
  "sample_stem p = takeWhile (\<lambda>c. c \<noteq> CHR ''.'') (last_segment p)"

fun split_on :: "char \<Rightarrow> string \<Rightarrow> string list" where
  "split_on c [] = [[]]"
| "split_on c (x # xs) =
     (if x = c then [] # split_on c xs
      else (case split_on c xs of [] \<Rightarrow> [[x]] | s # ss \<Rightarrow> (x # s) # ss))"

definition pointer_keys :: "string \<Rightarrow> string list" where
  "pointer_keys h = (if length h \<le> 2 then [] else split_on (CHR ''/'') (drop 2 h))"

definition sample_sliceObject :: "node \<Rightarrow> string \<Rightarrow> node" where
  "sample_sliceObject doc h = get_path doc (pointer_keys h)"

definition sample_regex_test :: "string \<Rightarrow> string \<Rightarrow> bool" where
  "sample_regex_test pat k =
     (case pat of
        [] \<Rightarrow> True
      | c # p \<Rightarrow> (if c = CHR ''^'' then take (length p) k = p
                  else list_ex (\<lambda>i. take (length pat) (drop i k) = pat) [0..<Suc (length k)]))"

definition sample_glob :: "string \<Rightarrow> string list" where
  "sample_glob p =
     (if p = ''/d/*.yaml'' then [''/d/Error.yaml'', ''/d/Cat.yaml'']
      else if p \<in> set (map fst sample_files) then [p]
      else [])"

definition sample_default_name :: "string \<Rightarrow> string" where
  "sample_default_name key =
     (if CHR ''#'' \<in> set key then last_segment key else sample_stem key)"

definition sample_env :: env where
  "sample_env =
     \<lparr>parseUrl = sample_parseUrl,
      getRefType = (\<lambda>jsonPath. ''schemas''),
      shouldInclude = (\<lambda>refType. False),
      readYAML = map_of sample_files,
      download = (\<lambda>url. None),
      sliceObject = sample_sliceObject,
      regex_test = sample_regex_test,
      glob_sync = sample_glob,
      path_dirname = sample_dirname,
      path_join = (\<lambda>d v. d @ ''/'' @ v),
      path_relative = (\<lambda>d p. drop (Suc (length d)) p),
      path_stem = sample_stem,
      url_resolve = (\<lambda>b v. b @ v),
      path_resolve_cwd = (\<lambda>p. ''/d/'' @ p),
      manager_get = lookup_by_pointer,
      default_name = sample_default_name,
      resolve_names = map (\<lambda>c. (canonicalKey c, assignedName c))\<rparr>"

text \<open>The registry after the file \<^verbatim>\<open>Error.yaml\<close> has been hoisted once.\<close>

definition sample_registry :: manager where
  "sample_registry =
     \<lparr>components = [\<lparr>kind = ''schemas'', canonicalKey = ''/d/Error.yaml'',
                      assignedName = ''Error'', content = Obj [(''type'', Str ''object'')]\<rparr>],
      names = [], merge_log = [''/d/Error.yaml''], active = []\<rparr>"

text \<open>
  The registry after the schema \<^verbatim>\<open>B\<close> of \<^verbatim>\<open>s.yaml\<close> has been hoisted once, the
  registry while the schema \<^verbatim>\<open>Node\<close> of \<^verbatim>\<open>node.yaml\<close> is being merged, and the
  sample environment with the other reading of the lookup.
\<close>

definition sample_registry_s :: manager where
  "sample_registry_s =
     \<lparr>components = [\<lparr>kind = ''schemas'', canonicalKey = ''/d/s.yaml#/B'',
                      assignedName = ''B'', content = Obj [(''type'', Str ''string'')]\<rparr>],
      names = [], merge_log = [''/d/s.yaml#/B''], active = []\<rparr>"


definition sample_env_by_key :: env where
  "sample_env_by_key = sample_env\<lparr>manager_get := lookup_by_key\<rparr>"


subsection \<open>The shallow merge of the specification\<close>

text \<open>
  For comparison with \<open>placeInclude\<close>, the specification's wording of what happens to a
  merged map: the retained keys are shallow-merged into the surrounding map (each key of
  the included map is assigned, replacing the value the surrounding map has under it), and
  the directive key is deleted.
\<close>

definition spec_shallow_merge :: "node \<Rightarrow> node \<Rightarrow> node" where
  "spec_shallow_merge ret src = fold (\<lambda>(k, v) r. put_prop r k v) (entries src) ret"

definition spec_place_map :: "env \<Rightarrow> node \<Rightarrow> string \<Rightarrow> node \<Rightarrow> node option" where
  "spec_place_map e ret key merged =
     delete_prop (spec_shallow_merge ret (filterObject e merged (getKeyPattern key))) key"

subsection \<open>The target of a hoisted reference\<close>

text \<open>
  A name for the if-cascade of \<open>handleRef\<close> (lines 85 to 106) without its calls of
  \<open>getOrCreate\<close>: the canonical key the component is registered under and the file its
  content is merged in, or \<open>None\<close> where the cycle guard returns.
\<close>

definition refSelection :: "env \<Rightarrow> manager \<Rightarrow> node \<Rightarrow> parsed \<Rightarrow> parsed
                              \<Rightarrow> (string \<times> string) option outcome" where
  "refSelection e m val pRef pFile =
     (if isHttp pRef then ok (Some (href pRef, hrefWoHash pRef))
      else if isLocal pRef then
        (if manager_get e (components m) val then ok None
         else ok (Some (hrefWoHash pFile @ hash pRef, hrefWoHash pFile)))
      else
        bind (relTarget e pFile val) (\<lambda>target.
        bind (or_throw TypeError (parseUrl e (Str target))) (\<lambda>parsedTarget.
        ok (Some (target, hrefWoHash parsedTarget)))))"

text \<open>The value one entry \<open>k \<mapsto> sv\<close> of a source map contributes to the merge into \<open>obj\<close>.\<close>

definition entry_value :: "node \<Rightarrow> string \<Rightarrow> node \<Rightarrow> node option" where
  "entry_value obj k sv =
     (if isObject sv then baseMerge (mergeTarget (get_prop obj k) sv) sv else Some (unhole sv))"

text \<open>
  A document that refers to the file \<^verbatim>\<open>Error.yaml\<close> and has a schema \<^verbatim>\<open>Error\<close> of its
  own in its components section.
\<close>

definition sample_api_doc :: node where
  "sample_api_doc =
     Obj [(''a'', Obj [(''$ref'', Str ''Error.yaml'')]),
          (''components'',
             Obj [(''schemas'', Obj [(''Error'', Obj [(''type'', Str ''string'')])])])]"

section \<open>Basic facts\<close>

lemma bind_simps [simp]:
  "bind None f = None"
  "bind (Some (Inl x)) f = Some (Inl x)"
  "bind (Some (Inr a)) f = f a"
  "bind (ok a) f = f a"
  "bind (throw x) f = throw x"
  by (simp_all add: bind_def ok_def throw_def)

lemma or_throw_simps [simp]:
  "or_throw x None = throw x"
  "or_throw x (Some a) = ok a"
  by (simp_all add: or_throw_def)

lemma outcome_distinct [simp]:
  "ok a \<noteq> throw x" "throw x \<noteq> ok a" "ok a \<noteq> None" "throw x \<noteq> None"
  "None \<noteq> ok a" "None \<noteq> throw x"
  by (simp_all add: ok_def throw_def)

lemma outcome_inject [simp]:
  "(ok a = ok b) = (a = b)" "(throw x = throw y) = (x = y)"
  by (simp_all add: ok_def throw_def)

lemmas index_key_simps =
  index_of_key_def is_digit_def digit_chars_def digit_val_def show_nat.simps

lemmas merger_simps =
  mergeRefs.simps mergeEntries.simps handleRef.simps handleInclude.simps includeGlob.simps
  handleDiscriminator.simps discriminatorEntries.simps

declare merger_simps [simp del]

lemma sample_env_fields:
  "parseUrl sample_env = sample_parseUrl"
  "getRefType sample_env = (\<lambda>jsonPath. ''schemas'')"
  "shouldInclude sample_env = (\<lambda>refType. False)"
  "readYAML sample_env = map_of sample_files"
  "download sample_env = (\<lambda>url. None)"
  "sliceObject sample_env = sample_sliceObject"
  "regex_test sample_env = sample_regex_test"
  "glob_sync sample_env = sample_glob"
  "path_dirname sample_env = sample_dirname"
  "path_join sample_env = (\<lambda>d v. d @ ''/'' @ v)"
  "path_relative sample_env = (\<lambda>d p. drop (Suc (length d)) p)"
  "path_stem sample_env = sample_stem"
  "url_resolve sample_env = (\<lambda>b v. b @ v)"
  "path_resolve_cwd sample_env = (\<lambda>p. ''/d/'' @ p)"
  "manager_get sample_env = lookup_by_pointer"
  "default_name sample_env = sample_default_name"
  "resolve_names sample_env = map (\<lambda>c. (canonicalKey c, assignedName c))"
  by (simp_all add: sample_env_def)

lemmas sample_defs =
  sample_env_fields sample_parseUrl_def sample_files_def sample_pet_doc_def sample_s_doc_def
  sample_node_doc_def pointer_keys_def lookup_by_pointer_def last_segment_def sample_dirname_def
  sample_stem_def sample_sliceObject_def sample_regex_test_def sample_glob_def
  sample_default_name_def

lemma bind_assoc: "bind (bind r f) g = bind r (\<lambda>x. bind (f x) g)"
  by (simp add: bind_def split: option.splits sum.splits)

lemma bind_cong_fun: "(\<And>a. f a = g a) \<Longrightarrow> bind r f = bind r g"
  by (simp add: bind_def split: option.splits sum.splits)

text \<open>\<open>handleInclude\<close> in stages: load and merge, then place the merged tree.\<close>

lemma handleInclude_stages:
  "handleInclude (Suc n) e m ret key val file jsonPath =
     bind (includeMerged n e m key val file jsonPath) (\<lambda>r.
     case r of
       None \<Rightarrow> ok ((ret, ret), m)
     | Some (merged, m2) \<Rightarrow> bind (placeInclude e ret key merged) (\<lambda>p. ok (p, m2)))"
  unfolding includeMerged_def handleInclude.simps includeLoad_def [symmetric] bind_assoc
  apply (intro bind_cong_fun)
  apply (simp add: bind_assoc split: option.splits prod.splits)
  apply (intro allI impI bind_cong_fun)
  apply (simp split: prod.splits)
  done

text \<open>\<open>handleRef\<close> with its if-cascade named.\<close>

lemma handleRef_stages:
  "handleRef (Suc n) e m ret key val file jsonPath =
     bind (or_throw TypeError (parseUrl e val)) (\<lambda>pRef.
     bind (or_throw TypeError (parseUrl e (Str file))) (\<lambda>pFile.
     if shouldInclude e (getRefType e jsonPath) then
       bind (handleInclude n e m ret key val file jsonPath) (\<lambda>((returned, inplace), m2).
       ok (inplace, m2))
     else
       bind (refSelection e m val pRef pFile) (\<lambda>sel.
       case sel of
         None \<Rightarrow> ok (ret, m)
       | Some (target, nextFile) \<Rightarrow>
           bind (getOrCreate e m (getRefType e jsonPath) target) (\<lambda>(cmp, m1).
           bind (or_throw Unmodelled (set_prop ret key (Str (getLocalRef cmp)))) (\<lambda>ret'.
           if target \<in> set (active m1) \<and> has_kept (content cmp) then throw Unmodelled
           else
             bind (mergeRefs n e (m1\<lparr>active := target # active m1\<rparr>) (content cmp) nextFile jsonPath)
               (\<lambda>((merged, old), m2).
             ok (ret', set_content (m2\<lparr>active := active m1\<rparr>) target merged)))))))"
  unfolding handleRef.simps refSelection_def [symmetric] Let_def ..

text \<open>What a successful \<open>set_prop\<close> leaves under the key, and the lookup by local pointer.\<close>

lemma get_prop_set_prop:
  assumes "set_prop obj k v = Some obj'" and "v \<noteq> Hole"
  shows "get_prop obj' k = v"
proof (cases obj)
  case (Obj kvs)
  have "map_of (upd_entry k v kvs) k = Some v"
    by (induction kvs) auto
  with Obj assms show ?thesis by auto
next
  case (Arr xs)
  with assms show ?thesis
    by (auto simp: arr_set_def unhole_def nth_append split: option.splits)
qed (use assms in auto)

lemma lookup_by_pointer_iff:
  "lookup_by_pointer cs v = (\<exists>c \<in> set cs. v = Str (getLocalRef c))"
  by (auto simp: lookup_by_pointer_def list_ex_iff)

section \<open>Sequences inside sequences\<close>

text \<open>
  Claim C3. When the merge of a child of a sequence yields a sequence, the result is to
  take the child's place in the parent. The loop of \<open>mergeRefs\<close> removes the element at
  the child's index from what it has built so far and appends the result at the end; the
  next child is then written at its own index of the input, over an element of the
  result just appended. On \<^verbatim>\<open>[[1, 2], [3]]\<close>, for every environment and registry, the
  merge returns \<^verbatim>\<open>[1, 3]\<close>: the element 2 is lost.
\<close>

theorem mergeRefs_nested_sequence_drops_element:
  "mergeRefs 10 e m (Arr [Arr [Num 1, Num 2], Arr [Num 3]]) file jsonPath
     = ok ((Arr [Num 1, Num 3], Arr [Arr [Num 1, Num 2], Arr [Num 3]]), m)"
  by (simp add: eval_nat_numeral merger_simps index_key_simps arr_set_def splice1_def
        elems_def include_match_def put_prop_def)

text \<open>
  The same through an inclusion: \<^verbatim>\<open>list.yaml\<close> holds \<^verbatim>\<open>[x, y]\<close>, and the sequence
  \<^verbatim>\<open>[{$include: list.yaml}, b]\<close> merges to \<^verbatim>\<open>[x, b]\<close>.
\<close>

lemma mergeRefs_included_sequence_drops_element:
  "map_option (map_sum id (fst \<circ> fst))
     (mergeRefs 20 sample_env (new_manager [])
        (Arr [Obj [(''$include'', Str ''list.yaml'')], Str ''b'']) ''/d/root.yaml'' ''$'')
     = ok (Arr [Str ''x'', Str ''b''])"
  by code_simp

section \<open>Inclusions that yield a sequence\<close>

text \<open>
  What \<open>handleInclude\<close> does with a merged sequence, by the object \<open>ret\<close> it is given:
  appended to a sequence, in place of a map of one key, an error for any other map.
\<close>

lemma handleInclude_sequence:
  assumes "includeMerged n e m key val file jsonPath = ok (Some (Arr ms, m2))"
  shows "handleInclude (Suc n) e m ret key val file jsonPath =
           (if isArray ret then ok ((Arr (elems ret @ ms), ret), m2)
            else if length (keys ret) = 1 then ok ((Arr ms, ret), m2)
            else throw StructuralMergeError)"
  by (simp add: handleInclude_stages assms placeInclude_def elems_def)

text \<open>
  Claim C4. An inclusion that yields a sequence replaces a map whose only key is the
  directive, and fails with \<open>StructuralMergeError\<close> in a map that has other keys. The
  object \<open>handleInclude\<close> counts the keys of is the copy \<open>mergeRefs\<close> has built so
  far, which holds the directive and the keys before it. So when the directive is the
  first key of a map, whatever entries \<open>es\<close> follow it, no error is raised: the loop
  goes on to them with the sequence as its result. (\<^verbatim>\<open>list.yaml\<close> holds \<^verbatim>\<open>[x, y]\<close>.)
\<close>

theorem mergeEntries_include_first_no_error:
  "mergeEntries 20 sample_env m (Obj []) obj ((''$include'', Str ''list.yaml'') # es)
       ''/d/root.yaml'' jsonPath
     = mergeEntries 19 sample_env m (Arr [Str ''x'', Str ''y'']) obj es ''/d/root.yaml'' jsonPath"
  apply (simp add: eval_nat_numeral)
  apply (subst mergeEntries.simps)
  apply (simp add: merger_simps sample_defs relTarget_def include_match_def tail_match_def
        placeInclude_def keys_def index_key_simps arr_set_def elems_def put_prop_def)
  done

section \<open>The cycle guard\<close>

text \<open>
  The guard of \<open>handleRef\<close> and \<open>handleInclude\<close> asks the registry for the reference
  string as it stands in the document (\<open>manager.get(val)\<close>), while a same-document
  target is registered under the location of the current file followed by the pointer
  (line 93).
\<close>




text \<open>
  A whole walk with a tolerated cycle: \<open>sample_node_doc\<close> refers, from its root and from
  the schema itself, to the schema \<^verbatim>\<open>Node\<close> of its own components section by the pointer
  the schema is registered with; the walk returns, with the document as it was.
\<close>

lemma mergeRefs_node_doc_returns:
  "map_option (map_sum id fst)
     (mergeRefs 30 sample_env (new_manager []) sample_node_doc ''/d/node.yaml'' ''$'')
     = ok (sample_node_doc, sample_node_doc)"
  by code_simp

text \<open>
  A cycle that is not tolerated: the schema \<^verbatim>\<open>Node\<close> of \<^verbatim>\<open>s.yaml\<close> refers to itself
  by the pointer \<^verbatim>\<open>#/Node\<close>, which is not the pointer it has in the registry. Once the
  schema is registered, as it is whenever its content is walked, resolving that
  reference needs more calls than any bound: it does not return.
\<close>

lemma handleRef_self_reference_no_return:
  assumes "find_component m ''/d/s.yaml#/Node'' = Some c"
    and "content c = Obj [(''next'', Obj [(''$ref'', Str ''#/Node'')])]"
  shows "handleRef n sample_env m (Obj kvs) ''$ref'' (Str ''#/Node'') ''/d/s.yaml'' jp = None"
  using assms
proof (induction n arbitrary: m kvs jp rule: less_induct)
  case (less n)
  let ?X = "Obj [(''$ref'', Str ''#/Node'')]"
  let ?C = "Obj [(''next'', ?X)]"
  let ?m = "m\<lparr>active := ''/d/s.yaml#/Node'' # active m\<rparr>"
  have fc: "find_component ?m ''/d/s.yaml#/Node'' = Some c"
    using less.prems(1) by (simp add: find_component_def)
  have im: "include_match ''next'' = None"
    by code_simp
  have kk: "\<not> kept_key ''next''"
    by (simp add: kept_key_def im)
  have l4: "mergeEntries k sample_env ?m (Obj []) ?X [(''$ref'', Str ''#/Node'')] ''/d/s.yaml'' p = None"
    if "k < n" for k p
  proof (cases k)
    case 0
    then show ?thesis by (simp add: mergeEntries.simps)
  next
    case (Suc k')
    with that have "k' < n" by simp
    from less.IH [OF this fc less.prems(2)] Suc show ?thesis
      by (simp add: mergeEntries.simps)
  qed
  have l3: "mergeRefs k sample_env ?m ?X ''/d/s.yaml'' p = None" if "k < n" for k p
  proof (cases k)
    case 0
    then show ?thesis by (simp add: mergeRefs.simps)
  next
    case (Suc k')
    with that have "k' < n" by simp
    from l4 [OF this] Suc show ?thesis
      by (simp add: mergeRefs.simps)
  qed
  have l2: "mergeEntries k sample_env ?m (Obj []) ?C [(''next'', ?X)] ''/d/s.yaml'' p = None"
    if "k < n" for k p
  proof (cases k)
    case 0
    then show ?thesis by (simp add: mergeEntries.simps)
  next
    case (Suc k')
    with that have "k' < n" by simp
    from l3 [OF this] Suc show ?thesis
      by (simp add: mergeEntries.simps im)
  qed
  have l1: "mergeRefs k sample_env ?m ?C ''/d/s.yaml'' p = None" if "k < n" for k p
  proof (cases k)
    case 0
    then show ?thesis by (simp add: mergeRefs.simps)
  next
    case (Suc k')
    with that have "k' < n" by simp
    from l2 [OF this] Suc show ?thesis
      by (simp add: mergeRefs.simps)
  qed
  have g: "\<not> manager_get sample_env (components m) (Str ''#/Node'')"
    by (simp add: sample_env_fields lookup_by_pointer_iff getLocalRef_def)
  show ?case
  proof (cases n)
    case 0
    then show ?thesis by (simp add: handleRef.simps)
  next
    case (Suc n')
    then have "n' < n" by simp
    from l1 [OF this] g less.prems Suc show ?thesis
      by (simp add: handleRef_stages refSelection_def getOrCreate_def sample_env_fields
            sample_parseUrl_def kk)
  qed
qed

section \<open>Discriminator mappings\<close>

text \<open>
  Claim C8, amended. One entry \<open>typeTag \<mapsto> target\<close> of a mapping, for a target
  \<open>parseUrl\<close> accepts. If the target is same-document and \<open>manager.get\<close> finds the target
  string (with the lookup by local pointer: the target is the local pointer of a
  component of the registry), the entry is skipped, mapping and registry as they were.
  Otherwise an empty target is skipped as well, and any other target is handled by
  \<open>handleRef\<close> on the mapping object itself, under the key \<open>typeTag\<close>, at the json path
  extended by \<^verbatim>\<open>.discriminator.<typeTag>\<close>. Where that reference is hoisted and the
  mapping is resolved, the target selected for the reference has a component in the
  registry, the entry holds that component's local pointer, the component's content has
  been merged and assigned, and the rest of the mapping is resolved from there.
\<close>

theorem discriminator_entry_resolved:
  assumes "parseUrl e mval = Some p"
  shows "(isLocal p \<and> manager_get e (components m) mval \<longrightarrow>
            discriminatorEntries (Suc n) e m mapping ((mkey, mval) # es) file jsonPath
              = discriminatorEntries n e m mapping es file jsonPath)
       \<and> (manager_get e = lookup_by_pointer \<longrightarrow>
            manager_get e (components m) mval = (\<exists>c \<in> set (components m). mval = Str (getLocalRef c)))
       \<and> (\<not> (isLocal p \<and> manager_get e (components m) mval) \<and> \<not> truthy mval \<longrightarrow>
            discriminatorEntries (Suc n) e m mapping ((mkey, mval) # es) file jsonPath
              = discriminatorEntries n e m mapping es file jsonPath)
       \<and> (\<not> (isLocal p \<and> manager_get e (components m) mval) \<and> truthy mval \<longrightarrow>
            discriminatorEntries (Suc n) e m mapping ((mkey, mval) # es) file jsonPath
              = bind (handleRef n e m mapping mkey mval file (jsonPath @ ''.discriminator.'' @ mkey))
                  (\<lambda>(mapping', m2). discriminatorEntries n e m2 mapping' es file jsonPath))
       \<and> (\<not> (isLocal p \<and> manager_get e (components m) mval) \<and> truthy mval
            \<and> \<not> shouldInclude e (getRefType e (jsonPath @ ''.discriminator.'' @ mkey))
            \<and> discriminatorEntries (Suc (Suc n)) e m mapping ((mkey, mval) # es) file jsonPath
                = ok (mapping2, m3)
          \<longrightarrow> (\<exists>pFile target nextFile c m1 mapping1 merged old m2.
                  parseUrl e (Str file) = Some pFile
                \<and> refSelection e m mval p pFile = ok (Some (target, nextFile))
                \<and> getOrCreate e m (getRefType e (jsonPath @ ''.discriminator.'' @ mkey)) target
                    = ok (c, m1)
                \<and> set_prop mapping mkey (Str (getLocalRef c)) = Some mapping1
                \<and> get_prop mapping1 mkey = Str (getLocalRef c)
                \<and> mergeRefs n e (m1\<lparr>active := target # active m1\<rparr>) (content c) nextFile
                    (jsonPath @ ''.discriminator.'' @ mkey) = ok ((merged, old), m2)
                \<and> discriminatorEntries (Suc n) e (set_content (m2\<lparr>active := active m1\<rparr>) target merged)
                    mapping1 es file jsonPath = ok (mapping2, m3)))"
proof -
  let ?jp = "jsonPath @ ''.discriminator.'' @ mkey"
  let ?guard = "isLocal p \<and> manager_get e (components m) mval"
  have step: "discriminatorEntries (Suc k) e m mapping ((mkey, mval) # es) file jsonPath =
           (if ?guard then discriminatorEntries k e m mapping es file jsonPath
            else if truthy mval
            then bind (handleRef k e m mapping mkey mval file ?jp)
                   (\<lambda>(mapping', m2). discriminatorEntries k e m2 mapping' es file jsonPath)
            else discriminatorEntries k e m mapping es file jsonPath)" for k
    using assms by (simp add: discriminatorEntries.simps)
  have b: "manager_get e (components m) mval = (\<exists>c \<in> set (components m). mval = Str (getLocalRef c))"
    if "manager_get e = lookup_by_pointer"
    by (simp add: that lookup_by_pointer_iff)
  have d: "\<exists>pFile target nextFile c m1 mapping1 merged old m2.
                  parseUrl e (Str file) = Some pFile
                \<and> refSelection e m mval p pFile = ok (Some (target, nextFile))
                \<and> getOrCreate e m (getRefType e ?jp) target = ok (c, m1)
                \<and> set_prop mapping mkey (Str (getLocalRef c)) = Some mapping1
                \<and> get_prop mapping1 mkey = Str (getLocalRef c)
                \<and> mergeRefs n e (m1\<lparr>active := target # active m1\<rparr>) (content c) nextFile ?jp
                    = ok ((merged, old), m2)
                \<and> discriminatorEntries (Suc n) e (set_content (m2\<lparr>active := active m1\<rparr>) target merged)
                    mapping1 es file jsonPath = ok (mapping2, m3)"
    if g: "\<not> ?guard" and t: "truthy mval" and s: "\<not> shouldInclude e (getRefType e ?jp)"
      and r: "discriminatorEntries (Suc (Suc n)) e m mapping ((mkey, mval) # es) file jsonPath
                = ok (mapping2, m3)"
  proof -
    from r g t obtain mapping1 mx where
      h: "handleRef (Suc n) e m mapping mkey mval file ?jp = ok (mapping1, mx)"
      and rest: "discriminatorEntries (Suc n) e mx mapping1 es file jsonPath = ok (mapping2, m3)"
      unfolding step
      by (auto simp: bind_def ok_def throw_def split: option.splits sum.splits if_splits prod.splits)
    from h obtain pFile where pf: "parseUrl e (Str file) = Some pFile"
      unfolding handleRef_stages
      by (auto simp: assms bind_def ok_def throw_def or_throw_def split: option.splits)
    from g have "refSelection e m mval p pFile \<noteq> ok None"
      by (auto simp: refSelection_def Let_def bind_def ok_def throw_def or_throw_def
            split: option.splits sum.splits if_splits)
    with h pf s obtain target nextFile where
      sel: "refSelection e m mval p pFile = ok (Some (target, nextFile))"
      unfolding handleRef_stages
      by (auto simp: assms bind_def ok_def throw_def split: option.splits sum.splits)
    from h pf s sel obtain c m1 where
      reg: "getOrCreate e m (getRefType e ?jp) target = ok (c, m1)"
      unfolding handleRef_stages
      by (auto simp: assms bind_def ok_def throw_def split: option.splits sum.splits)
    from h pf s sel reg have sp: "set_prop mapping mkey (Str (getLocalRef c)) = Some mapping1"
      and mg: "\<exists>merged old m2.
                 mergeRefs n e (m1\<lparr>active := target # active m1\<rparr>) (content c) nextFile ?jp
                   = ok ((merged, old), m2)
               \<and> mx = set_content (m2\<lparr>active := active m1\<rparr>) target merged"
      unfolding handleRef_stages
      by (auto simp: assms bind_def ok_def throw_def or_throw_def
            split: option.splits sum.splits if_splits prod.splits)
    from sp have gp: "get_prop mapping1 mkey = Str (getLocalRef c)"
      by (rule get_prop_set_prop) simp
    from mg obtain merged old m2 where
      m2: "mergeRefs n e (m1\<lparr>active := target # active m1\<rparr>) (content c) nextFile ?jp
             = ok ((merged, old), m2)"
      and mx: "mx = set_content (m2\<lparr>active := active m1\<rparr>) target merged"
      by (elim exE conjE)
    from pf sel reg sp gp m2 rest [unfolded mx] show ?thesis
      by (intro exI conjI)
  qed
  have c1: "?guard \<longrightarrow>
            discriminatorEntries (Suc n) e m mapping ((mkey, mval) # es) file jsonPath
              = discriminatorEntries n e m mapping es file jsonPath"
    by (simp add: step)
  have c2: "manager_get e = lookup_by_pointer \<longrightarrow>
            manager_get e (components m) mval = (\<exists>c \<in> set (components m). mval = Str (getLocalRef c))"
    using b by (rule impI)
  have c3: "\<not> ?guard \<and> \<not> truthy mval \<longrightarrow>
            discriminatorEntries (Suc n) e m mapping ((mkey, mval) # es) file jsonPath
              = discriminatorEntries n e m mapping es file jsonPath"
    by (simp add: step)
  have c4: "\<not> ?guard \<and> truthy mval \<longrightarrow>
            discriminatorEntries (Suc n) e m mapping ((mkey, mval) # es) file jsonPath
              = bind (handleRef n e m mapping mkey mval file ?jp)
                  (\<lambda>(mapping', m2). discriminatorEntries n e m2 mapping' es file jsonPath)"
    by (simp add: step)
  have c5: "\<not> ?guard \<and> truthy mval \<and> \<not> shouldInclude e (getRefType e ?jp)
            \<and> discriminatorEntries (Suc (Suc n)) e m mapping ((mkey, mval) # es) file jsonPath
                = ok (mapping2, m3)
          \<longrightarrow> (\<exists>pFile target nextFile c m1 mapping1 merged old m2.
                  parseUrl e (Str file) = Some pFile
                \<and> refSelection e m mval p pFile = ok (Some (target, nextFile))
                \<and> getOrCreate e m (getRefType e ?jp) target = ok (c, m1)
                \<and> set_prop mapping mkey (Str (getLocalRef c)) = Some mapping1
                \<and> get_prop mapping1 mkey = Str (getLocalRef c)
                \<and> mergeRefs n e (m1\<lparr>active := target # active m1\<rparr>) (content c) nextFile ?jp
                    = ok ((merged, old), m2)
                \<and> discriminatorEntries (Suc n) e (set_content (m2\<lparr>active := active m1\<rparr>) target merged)
                    mapping1 es file jsonPath = ok (mapping2, m3))"
    by (intro impI, elim conjE, rule d)
  from c1 c2 c3 c4 c5 show ?thesis by (intro conjI)
qed

text \<open>
  In the sample environment: the target \<^verbatim>\<open>#/components/schemas/Error\<close> is the pointer of
  the component of \<open>sample_registry\<close> and is skipped; an empty target is skipped; the
  target \<^verbatim>\<open>Cat.yaml\<close> is registered, the entry rewritten to
  \<^verbatim>\<open>#/components/schemas/Cat\<close>.
\<close>

theorem discriminator_entry_resolved_witness:
  "discriminatorEntries (Suc (Suc 0)) sample_env sample_registry
       (Obj [(''err'', Str ''#/components/schemas/Error'')])
       [(''err'', Str ''#/components/schemas/Error'')] ''/d/root.yaml'' ''$.Pet''
     = ok (Obj [(''err'', Str ''#/components/schemas/Error'')], sample_registry)
   \<and> (\<exists>c \<in> set (components sample_registry).
         Str ''#/components/schemas/Error'' = Str (getLocalRef c))
   \<and> discriminatorEntries (Suc (Suc 0)) sample_env (new_manager []) (Obj [(''none'', Str '''')])
       [(''none'', Str '''')] ''/d/root.yaml'' ''$.Pet''
     = ok (Obj [(''none'', Str '''')], new_manager [])
   \<and> (\<exists>c m1 mapping1 merged old m2.
         getOrCreate sample_env (new_manager []) ''schemas'' ''/d/Cat.yaml'' = ok (c, m1)
       \<and> getLocalRef c = ''#/components/schemas/Cat''
       \<and> set_prop (Obj [(''cat'', Str ''Cat.yaml'')]) ''cat'' (Str (getLocalRef c)) = Some mapping1
       \<and> get_prop mapping1 ''cat'' = Str (getLocalRef c)
       \<and> mergeRefs 18 sample_env (m1\<lparr>active := ''/d/Cat.yaml'' # active m1\<rparr>) (content c)
           ''/d/Cat.yaml'' ''$.Pet.discriminator.cat'' = ok ((merged, old), m2)
       \<and> discriminatorEntries (Suc 18) sample_env
           (set_content (m2\<lparr>active := active m1\<rparr>) ''/d/Cat.yaml'' merged) mapping1 []
           ''/d/root.yaml'' ''$.Pet''
         = ok (Obj [(''cat'', Str ''#/components/schemas/Cat'')],
               \<lparr>components = [\<lparr>kind = ''schemas'', canonicalKey = ''/d/Cat.yaml'',
                                assignedName = ''Cat'',
                                content = Obj [(''description'', Str ''A cat'')]\<rparr>],
                names = [], merge_log = [''/d/Cat.yaml''], active = []\<rparr>))"
proof -
  let ?pe = "Str ''#/components/schemas/Error''"
  let ?pErr = "\<lparr>isHttp = False, isLocal = True, href = ''#/components/schemas/Error'',
                hrefWoHash = '''', hash = ''#/components/schemas/Error''\<rparr>"
  have e1: "parseUrl sample_env ?pe = Some ?pErr" by (simp add: sample_defs)
  have e2: "isLocal ?pErr \<and> manager_get sample_env (components sample_registry) ?pe"
    by (simp add: sample_defs sample_registry_def getLocalRef_def)
  have e3: "discriminatorEntries (Suc 0) sample_env sample_registry
              (Obj [(''err'', ?pe)]) [] ''/d/root.yaml'' ''$.Pet''
            = ok (Obj [(''err'', ?pe)], sample_registry)"
    by (simp add: discriminatorEntries.simps)
  note skipped = discriminator_entry_resolved [OF e1, where n = "Suc 0" and m = sample_registry,
      THEN conjunct1, rule_format, OF e2]
  have e4: "manager_get sample_env = lookup_by_pointer"
    by (simp add: sample_env_fields)
  note found = discriminator_entry_resolved [OF e1, where m = sample_registry,
      THEN conjunct2, THEN conjunct1, rule_format, OF e4, THEN iffD1, OF e2 [THEN conjunct2]]
  let ?pNone = "\<lparr>isHttp = False, isLocal = False, href = '''', hrefWoHash = '''', hash = ''''\<rparr>"
  have d1: "parseUrl sample_env (Str '''') = Some ?pNone" by (simp add: sample_defs)
  have d2: "\<not> (isLocal ?pNone \<and> manager_get sample_env (components (new_manager [])) (Str ''''))
            \<and> \<not> truthy (Str '''')"
    by simp
  have d3: "discriminatorEntries (Suc 0) sample_env (new_manager []) (Obj [(''none'', Str '''')]) []
              ''/d/root.yaml'' ''$.Pet'' = ok (Obj [(''none'', Str '''')], new_manager [])"
    by (simp add: discriminatorEntries.simps)
  note empty = discriminator_entry_resolved [OF d1, where n = "Suc 0" and m = "new_manager []",
      THEN conjunct2, THEN conjunct2, THEN conjunct1, rule_format, OF d2]
  let ?pc = "Str ''Cat.yaml''"
  let ?pCat = "\<lparr>isHttp = False, isLocal = False, href = ''Cat.yaml'', hrefWoHash = ''Cat.yaml'',
                hash = ''''\<rparr>"
  let ?pRoot = "\<lparr>isHttp = False, isLocal = False, href = ''/d/root.yaml'',
                 hrefWoHash = ''/d/root.yaml'', hash = ''''\<rparr>"
  let ?out = "(Obj [(''cat'', Str ''#/components/schemas/Cat'')],
               \<lparr>components = [\<lparr>kind = ''schemas'', canonicalKey = ''/d/Cat.yaml'',
                                assignedName = ''Cat'',
                                content = Obj [(''description'', Str ''A cat'')]\<rparr>],
                names = [], merge_log = [''/d/Cat.yaml''], active = []\<rparr>)"
  have c1: "parseUrl sample_env ?pc = Some ?pCat" by (simp add: sample_defs)
  have c2: "\<not> (isLocal ?pCat \<and> manager_get sample_env (components (new_manager [])) ?pc)"
    by simp
  have c3: "truthy ?pc" by simp
  have c4: "\<not> shouldInclude sample_env
               (getRefType sample_env (''$.Pet'' @ ''.discriminator.'' @ ''cat''))"
    by (simp add: sample_defs)
  have c5: "discriminatorEntries (Suc (Suc 18)) sample_env (new_manager [])
              (Obj [(''cat'', ?pc)]) [(''cat'', ?pc)] ''/d/root.yaml'' ''$.Pet'' = ok ?out"
    by code_simp
  have c6: "parseUrl sample_env (Str ''/d/root.yaml'') = Some ?pRoot" by (simp add: sample_defs)
  have c7: "refSelection sample_env (new_manager []) ?pc ?pCat ?pRoot
              = ok (Some (''/d/Cat.yaml'', ''/d/Cat.yaml''))"
    by code_simp
  have c8: "getRefType sample_env (''$.Pet'' @ ''.discriminator.'' @ ''cat'') = ''schemas''"
    by (simp add: sample_defs)
  note resolved = discriminator_entry_resolved [OF c1, where n = 18 and m = "new_manager []",
      THEN conjunct2, THEN conjunct2, THEN conjunct2, THEN conjunct2, rule_format,
      OF conjI [OF c2 conjI [OF c3 conjI [OF c4 c5]]]]
  then obtain pFile target nextFile c m1 mapping1 merged old m2 where
      r1: "parseUrl sample_env (Str ''/d/root.yaml'') = Some pFile"
      and r2: "refSelection sample_env (new_manager []) ?pc ?pCat pFile = ok (Some (target, nextFile))"
      and r3: "getOrCreate sample_env (new_manager [])
                 (getRefType sample_env (''$.Pet'' @ ''.discriminator.'' @ ''cat'')) target = ok (c, m1)"
      and r4: "set_prop (Obj [(''cat'', ?pc)]) ''cat'' (Str (getLocalRef c)) = Some mapping1"
      and r5: "get_prop mapping1 ''cat'' = Str (getLocalRef c)"
      and r6: "mergeRefs 18 sample_env (m1\<lparr>active := target # active m1\<rparr>) (content c) nextFile
                 (''$.Pet'' @ ''.discriminator.'' @ ''cat'') = ok ((merged, old), m2)"
      and r7: "discriminatorEntries (Suc 18) sample_env
                 (set_content (m2\<lparr>active := active m1\<rparr>) target merged) mapping1 []
                 ''/d/root.yaml'' ''$.Pet'' = ok ?out"
    by (elim exE conjE) (rule that, assumption+)
  from r1 c6 have pf: "pFile = ?pRoot" by simp
  from r2 c7 have tg: "target = ''/d/Cat.yaml''" and nf: "nextFile = ''/d/Cat.yaml''"
    unfolding pf by (auto simp: ok_def)
  from r7 [unfolded discriminatorEntries.simps ok_def]
  have "mapping1 = Obj [(''cat'', Str ''#/components/schemas/Cat'')]"
    by simp
  with r4 have lr: "getLocalRef c = ''#/components/schemas/Cat''" by simp
  from skipped e3 have first: "discriminatorEntries (Suc (Suc 0)) sample_env sample_registry
       (Obj [(''err'', ?pe)]) [(''err'', ?pe)] ''/d/root.yaml'' ''$.Pet''
     = ok (Obj [(''err'', ?pe)], sample_registry)"
    by simp
  have second: "\<exists>c m1 mapping1 merged old m2.
         getOrCreate sample_env (new_manager []) ''schemas'' ''/d/Cat.yaml'' = ok (c, m1)
       \<and> getLocalRef c = ''#/components/schemas/Cat''
       \<and> set_prop (Obj [(''cat'', Str ''Cat.yaml'')]) ''cat'' (Str (getLocalRef c)) = Some mapping1
       \<and> get_prop mapping1 ''cat'' = Str (getLocalRef c)
       \<and> mergeRefs 18 sample_env (m1\<lparr>active := ''/d/Cat.yaml'' # active m1\<rparr>) (content c)
           ''/d/Cat.yaml'' ''$.Pet.discriminator.cat'' = ok ((merged, old), m2)
       \<and> discriminatorEntries (Suc 18) sample_env
           (set_content (m2\<lparr>active := active m1\<rparr>) ''/d/Cat.yaml'' merged) mapping1 []
           ''/d/root.yaml'' ''$.Pet'' = ok ?out"
    using r3 [unfolded c8 tg] lr r4 r5 r6 [unfolded tg nf] r7 [unfolded tg]
    by (intro exI conjI) simp_all
  from empty d3 have third: "discriminatorEntries (Suc (Suc 0)) sample_env (new_manager [])
       (Obj [(''none'', Str '''')]) [(''none'', Str '''')] ''/d/root.yaml'' ''$.Pet''
     = ok (Obj [(''none'', Str '''')], new_manager [])"
    by simp
  from first found third second show ?thesis by (intro conjI)
qed

text \<open>
  Claim C8 as stated fails on an entry with an empty target that is not a registered
  same-document one: the claim has it resolved as a reference, which here would try to
  load the directory \<^verbatim>\<open>/d/\<close> and fail; the loop leaves the entry alone and succeeds.
  It also fails on the same-document target \<^verbatim>\<open>#/B\<close> in \<^verbatim>\<open>s.yaml\<close> when the registry
  holds the component of \<^verbatim>\<open>/d/s.yaml#/B\<close>: under either reading of the lookup the
  entry is not skipped but rewritten, and the component merged once more.
\<close>

theorem discriminator_empty_target_counterexample:
  "discriminatorEntries 20 sample_env (new_manager []) (Obj [(''cat'', Str '''')])
       [(''cat'', Str '''')] ''/d/root.yaml'' ''$.Pet''
     = ok (Obj [(''cat'', Str '''')], new_manager [])
   \<and> handleRef 19 sample_env (new_manager []) (Obj [(''cat'', Str '''')]) ''cat'' (Str '''')
       ''/d/root.yaml'' ''$.Pet.discriminator.cat''
     = throw LoadError
   \<and> find_component sample_registry_s ''/d/s.yaml#/B'' \<noteq> None
   \<and> handleDiscriminator 20 sample_env sample_registry_s
       (Obj [(''mapping'', Obj [(''b'', Str ''#/B'')])]) ''/d/s.yaml'' ''$.P''
     = ok (Obj [(''mapping'', Obj [(''b'', Str ''#/components/schemas/B'')])],
           sample_registry_s\<lparr>merge_log := [''/d/s.yaml#/B'', ''/d/s.yaml#/B'']\<rparr>)
   \<and> handleDiscriminator 20 sample_env_by_key sample_registry_s
       (Obj [(''mapping'', Obj [(''b'', Str ''#/B'')])]) ''/d/s.yaml'' ''$.P''
     = ok (Obj [(''mapping'', Obj [(''b'', Str ''#/components/schemas/B'')])],
           sample_registry_s\<lparr>merge_log := [''/d/s.yaml#/B'', ''/d/s.yaml#/B'']\<rparr>)"
  by code_simp

lemma set_prop_again:
  assumes "set_prop ret k v = Some ret1"
  shows "put_prop ret1 k v = ret1"
proof (cases ret)
  case (Obj kvs)
  have "upd_entry k v (upd_entry k v kvs) = upd_entry k v kvs"
    by (induction kvs) auto
  with Obj assms show ?thesis by (auto simp: put_prop_def)
next
  case (Arr xs)
  then show ?thesis
    using assms
    by (auto simp: put_prop_def arr_set_def nth_append list_update_append split: option.splits)
qed (use assms in auto)

text \<open>
  Claim C10, amended. For a discriminator value other than \<open>null\<close> that has no (truthy)
  \<open>mapping\<close>, the handling of the key changes nothing: \<open>handleDiscriminator\<close> returns the
  value as it is, with the registry as it was, and the loop of \<open>mergeRefs\<close> goes on with
  that value stored under the key. Inside a mapping, an entry whose target is falsy and
  accepted by \<open>parseUrl\<close> is passed over: the loop goes on with the same mapping and
  registry, nothing resolved and nothing thrown for the entry.
\<close>

theorem discriminator_without_mapping:
  "(val \<noteq> Null \<and> val \<noteq> Undefined \<and> \<not> truthy (get_prop val ''mapping'') \<longrightarrow>
      handleDiscriminator (Suc n) e m val file jsonPath = ok (val, m))
   \<and> (val \<noteq> Null \<and> val \<noteq> Undefined \<and> \<not> truthy (get_prop val ''mapping'')
        \<and> set_prop ret ''discriminator'' val = Some ret1 \<longrightarrow>
      mergeEntries (Suc (Suc n)) e m ret obj ((''discriminator'', val) # es) file jsonPath
        = mergeEntries (Suc n) e m ret1 (put_prop obj ''discriminator'' val) es file jsonPath)
   \<and> (parseUrl e mval = Some p \<and> \<not> truthy mval \<longrightarrow>
      discriminatorEntries (Suc n) e m mapping ((mkey, mval) # es') file jsonPath
        = discriminatorEntries n e m mapping es' file jsonPath)"
proof -
  have a: "handleDiscriminator (Suc k) e m val file jsonPath = ok (val, m)"
    if "val \<noteq> Null" and "val \<noteq> Undefined" and "\<not> truthy (get_prop val ''mapping'')" for k
    using that by (simp add: handleDiscriminator.simps)
  have b: "include_match ''discriminator'' = None"
    by (simp add: include_match_def)
  have c: "mergeEntries (Suc (Suc n)) e m ret obj ((''discriminator'', val) # es) file jsonPath
             = mergeEntries (Suc n) e m ret1 (put_prop obj ''discriminator'' val) es file jsonPath"
    if "val \<noteq> Null" and "val \<noteq> Undefined" and "\<not> truthy (get_prop val ''mapping'')"
      and s: "set_prop ret ''discriminator'' val = Some ret1"
    by (simp add: mergeEntries.simps s a [OF that(1-3)] b set_prop_again [OF s])
  have d: "discriminatorEntries (Suc n) e m mapping ((mkey, mval) # es') file jsonPath
             = discriminatorEntries n e m mapping es' file jsonPath"
    if "parseUrl e mval = Some p" and "\<not> truthy mval"
    using that by (simp add: discriminatorEntries.simps)
  from a c d show ?thesis by blast
qed

text \<open>
  A discriminator that only names its property, and a mapping entry with an empty target,
  in the sample environment.
\<close>

theorem discriminator_without_mapping_witness:
  "handleDiscriminator (Suc (Suc 0)) sample_env (new_manager [])
       (Obj [(''propertyName'', Str ''t'')]) ''/d/root.yaml'' ''$.Pet''
     = ok (Obj [(''propertyName'', Str ''t'')], new_manager [])
   \<and> mergeEntries (Suc (Suc (Suc 0))) sample_env (new_manager []) (Obj [(''type'', Str ''object'')])
       (Obj [(''type'', Str ''object''), (''discriminator'', Obj [(''propertyName'', Str ''t'')])])
       [(''discriminator'', Obj [(''propertyName'', Str ''t'')])] ''/d/root.yaml'' ''$.Pet''
     = ok ((Obj [(''type'', Str ''object''), (''discriminator'', Obj [(''propertyName'', Str ''t'')])],
            Obj [(''type'', Str ''object''), (''discriminator'', Obj [(''propertyName'', Str ''t'')])]),
           new_manager [])
   \<and> discriminatorEntries (Suc (Suc 0)) sample_env (new_manager []) (Obj [(''cat'', Str '''')])
       [(''cat'', Str '''')] ''/d/root.yaml'' ''$.Pet''
     = ok (Obj [(''cat'', Str '''')], new_manager [])"
proof -
  let ?val = "Obj [(''propertyName'', Str ''t'')]"
  let ?ret = "Obj [(''type'', Str ''object'')]"
  let ?ret1 = "Obj [(''type'', Str ''object''), (''discriminator'', ?val)]"
  let ?p = "\<lparr>isHttp = False, isLocal = False, href = '''', hrefWoHash = '''', hash = ''''\<rparr>"
  have h: "?val \<noteq> Null \<and> ?val \<noteq> Undefined \<and> \<not> truthy (get_prop ?val ''mapping'')"
    by simp
  have h4: "set_prop ?ret ''discriminator'' ?val = Some ?ret1" by simp
  have h5: "parseUrl sample_env (Str '''') = Some ?p \<and> \<not> truthy (Str '''')"
    by (simp add: sample_defs)
  note th = discriminator_without_mapping [where val = ?val and ret = ?ret and e = sample_env
      and n = "Suc 0" and m = "new_manager []" and obj = ?ret1 and es = "[]"
      and jsonPath = "''$.Pet''"]
  note t1 = th [THEN conjunct1, rule_format, OF h]
  note t2 = th [THEN conjunct2, THEN conjunct1, rule_format, OF conjI [OF h [THEN conjunct1]
      conjI [OF h [THEN conjunct2, THEN conjunct1] conjI [OF h [THEN conjunct2, THEN conjunct2] h4]]]]
  note t3 = discriminator_without_mapping [where e = sample_env and mval = "Str ''''" and p = ?p
      and n = "Suc 0" and m = "new_manager []" and es' = "[]"
      and mapping = "Obj [(''cat'', Str '''')]" and mkey = "''cat''",
      THEN conjunct2, THEN conjunct2, rule_format, OF h5]
  have e1: "mergeEntries (Suc (Suc 0)) sample_env (new_manager []) ?ret1
              (put_prop ?ret1 ''discriminator'' ?val) [] f jp
            = ok ((?ret1, ?ret1), new_manager [])" for f jp
    by (simp add: mergeEntries.simps put_prop_def)
  have e2: "discriminatorEntries (Suc 0) sample_env (new_manager []) (Obj [(''cat'', Str '''')]) []
              f jp = ok (Obj [(''cat'', Str '''')], new_manager [])" for f jp
    by (simp add: discriminatorEntries.simps)
  from t1 t2 t3 e1 e2 show ?thesis by simp
qed

text \<open>
  Claim C10 as stated fails on a map that holds, after a discriminator without a
  mapping, an inclusion of a file with a \<^verbatim>\<open>discriminator\<close> key of its own
  (\<^verbatim>\<open>disc.yaml\<close> is \<^verbatim>\<open>{discriminator: {x: 1}}\<close>): after the first key the copy holds the
  discriminator value, and the inclusion deep-merges the included value into it.
\<close>

theorem discriminator_merged_into_counterexample:
  "mergeEntries 20 sample_env (new_manager []) (Obj [])
       (Obj [(''discriminator'', Obj [(''propertyName'', Str ''t'')]),
             (''$include'', Str ''disc.yaml'')])
       [(''discriminator'', Obj [(''propertyName'', Str ''t'')])] ''/d/root.yaml'' ''$.Pet''
     = ok ((Obj [(''discriminator'', Obj [(''propertyName'', Str ''t'')])],
            Obj [(''discriminator'', Obj [(''propertyName'', Str ''t'')]),
                 (''$include'', Str ''disc.yaml'')]), new_manager [])
   \<and> set_prop (Obj [(''discriminator'', Obj [(''propertyName'', Str ''t'')])])
        ''$include'' (Str ''disc.yaml'')
     = Some (Obj [(''discriminator'', Obj [(''propertyName'', Str ''t'')]),
                  (''$include'', Str ''disc.yaml'')])
   \<and> handleInclude 20 sample_env (new_manager [])
       (Obj [(''discriminator'', Obj [(''propertyName'', Str ''t'')]),
             (''$include'', Str ''disc.yaml'')])
       ''$include'' (Str ''disc.yaml'') ''/d/root.yaml'' ''$.Pet''
     = ok ((Obj [(''discriminator'', Obj [(''propertyName'', Str ''t''), (''x'', Num 1)])],
            Obj [(''discriminator'', Obj [(''propertyName'', Str ''t''), (''x'', Num 1)])]),
           new_manager [])"
  by code_simp

text \<open>
  The value \<open>null\<close> has no mapping either; there reading \<open>val.mapping\<close> throws, whatever
  the environment.
\<close>

lemma handleDiscriminator_null:
  "handleDiscriminator (Suc n) e m Null file jsonPath = throw TypeError"
  by (simp add: handleDiscriminator.simps)

lemma mergeRefs_discriminator_null:
  "mergeRefs (Suc (Suc (Suc n))) e m (Obj [(''discriminator'', Null)]) file jsonPath = throw TypeError"
  by (simp add: mergeRefs.simps mergeEntries.simps handleDiscriminator.simps include_match_def)

section \<open>The caller's document\<close>

text \<open>
  Claim C9. Merging is to build a new tree and leave every node of its input as it was.
  \<open>mergeRefs\<close> copies each map and sequence it walks, but under the key
  \<^verbatim>\<open>discriminator\<close> it stores the input's own value, and \<open>handleDiscriminator\<close> hands
  the input's \<open>mapping\<close> object to \<open>handleRef\<close>, which writes the local pointer into it.
  On the document \<open>sample_pet_doc\<close>, whose mapping sends \<^verbatim>\<open>cat\<close> to the file
  \<^verbatim>\<open>Cat.yaml\<close>, one walk returns the new tree and leaves the input with \<^verbatim>\<open>cat\<close> sent
  to \<^verbatim>\<open>#/components/schemas/Cat\<close>; after \<open>merge\<close> the caller's document is changed
  in the same way.
\<close>

theorem mergeRefs_rewrites_input_mapping:
  "map_option (map_sum id (snd \<circ> fst))
     (mergeRefs 30 sample_env (new_manager []) sample_pet_doc ''/d/root.yaml'' ''$'')
     = ok (Obj [(''Pet'', Obj [(''type'', Str ''object''),
                               (''discriminator'',
                                  Obj [(''propertyName'', Str ''type''),
                                       (''mapping'',
                                          Obj [(''cat'', Str ''#/components/schemas/Cat'')])])])])
   \<and> map_option (map_sum id snd) (merge 30 sample_env sample_pet_doc ''root.yaml'')
     = ok (Obj [(''Pet'', Obj [(''type'', Str ''object''),
                               (''discriminator'',
                                  Obj [(''propertyName'', Str ''type''),
                                       (''mapping'',
                                          Obj [(''cat'', Str ''#/components/schemas/Cat'')])])])])
   \<and> get_prop (get_prop (get_prop (get_prop sample_pet_doc ''Pet'') ''discriminator'') ''mapping'')
         ''cat'' = Str ''Cat.yaml''"
  by code_simp

text \<open>
  The second pass of \<open>merge\<close> walks the document the first pass has changed: it finds the
  pointer where the file name was, and the content of \<^verbatim>\<open>Cat.yaml\<close> does not reach the
  components section of the result.
\<close>

lemma merge_pet_doc_components:
  "map_option (map_sum id (\<lambda>r. get_prop (fst r) ''components''))
     (merge 30 sample_env sample_pet_doc ''root.yaml'')
     = ok (Obj [(''schemas'', Obj [(''Cat'', Undefined)])])"
  by code_simp

section \<open>A pattern that matches no file\<close>

text \<open>
  Claim C7, amended. For an inclusion whose target is a file path or pattern (neither
  remote nor same-document) that \<open>Glob.sync\<close> matches to no path, \<open>handleInclude\<close>
  hands the path itself to the loader, as it does for a single match. The merge fails when
  that load fails, with the loader's \<open>LoadError\<close>; when the load succeeds the inclusion
  goes on with the loaded content. No check of the number of matches exists and no
  \<open>UnresolvableReferenceError\<close> is raised.
\<close>

theorem handleInclude_no_match:
  assumes "parseUrl e val = Some pRef" and "parseUrl e (Str file) = Some pFile"
    and "\<not> isHttp pRef" and "\<not> isLocal pRef"
    and "relTarget e pFile val = ok target"
    and "parseUrl e (Str target) = Some parsedTarget" and "\<not> isHttp parsedTarget"
    and "glob_sync e (hrefWoHash parsedTarget) = []"
  shows "handleInclude (Suc n) e m ret key val file jsonPath =
           (case readYAML e (hrefWoHash parsedTarget) of
              None \<Rightarrow> throw LoadError
            | Some cont \<Rightarrow>
                bind (mergeRefs n e m (sliceObject e cont (hash pRef)) (hrefWoHash parsedTarget)
                        jsonPath) (\<lambda>((merged, old), m2).
                bind (placeInclude e ret key merged) (\<lambda>r. ok (r, m2))))"
  using assms by (simp add: handleInclude.simps split: option.splits)

text \<open>The pattern \<^verbatim>\<open>nothing*.yaml\<close> in the sample directory: the load of the pattern fails.\<close>

theorem handleInclude_no_match_witness:
  "handleInclude (Suc 19) sample_env (new_manager []) (Obj [(''$include'', Str ''nothing*.yaml'')])
     ''$include'' (Str ''nothing*.yaml'') ''/d/root.yaml'' ''$'' = throw LoadError"
proof -
  let ?pRef = "\<lparr>isHttp = False, isLocal = False, href = ''nothing*.yaml'',
                hrefWoHash = ''nothing*.yaml'', hash = ''''\<rparr>"
  let ?pFile = "\<lparr>isHttp = False, isLocal = False, href = ''/d/root.yaml'',
                 hrefWoHash = ''/d/root.yaml'', hash = ''''\<rparr>"
  let ?pt = "\<lparr>isHttp = False, isLocal = False, href = ''/d/nothing*.yaml'',
               hrefWoHash = ''/d/nothing*.yaml'', hash = ''''\<rparr>"
  have h1: "parseUrl sample_env (Str ''nothing*.yaml'') = Some ?pRef" by (simp add: sample_defs)
  have h2: "parseUrl sample_env (Str ''/d/root.yaml'') = Some ?pFile" by (simp add: sample_defs)
  have h3: "\<not> isHttp ?pRef" and h4: "\<not> isLocal ?pRef" by simp_all
  have h5: "relTarget sample_env ?pFile (Str ''nothing*.yaml'') = ok ''/d/nothing*.yaml''"
    by (simp add: relTarget_def sample_defs)
  have h6: "parseUrl sample_env (Str ''/d/nothing*.yaml'') = Some ?pt" by (simp add: sample_defs)
  have h7: "\<not> isHttp ?pt" by simp
  have h8: "glob_sync sample_env (hrefWoHash ?pt) = []" by (simp add: sample_defs)
  have h9: "readYAML sample_env (hrefWoHash ?pt) = None" by (simp add: sample_defs)
  show ?thesis
    unfolding handleInclude_no_match [OF h1 h2 h3 h4 h5 h6 h7 h8] h9 by simp
qed

text \<open>
  Claim C7 as stated fails there: the whole merge of a document with that inclusion ends
  with the loader's error, not with \<open>UnresolvableReferenceError\<close>.
\<close>

theorem merge_no_match_counterexample:
  "merge 20 sample_env (Obj [(''paths'', Obj [(''$include'', Str ''nothing*.yaml'')])]) ''api.yaml''
     = throw LoadError
   \<and> merge 20 sample_env (Obj [(''paths'', Obj [(''$include'', Str ''nothing*.yaml'')])]) ''api.yaml''
     \<noteq> throw UnresolvableReferenceError"
  by code_simp

section \<open>Inclusions that yield a map\<close>

text \<open>The pattern of a directive key without a fragment is the text between its slashes.\<close>

lemma getKeyPattern_slashes:
  assumes "list_all dot_ok pat"
  shows "getKeyPattern (''$include/'' @ pat @ ''/'') = Some pat"
proof -
  have "is_slashed (CHR ''/'' # pat @ ''/'')"
    using assms by (simp add: is_slashed_def butlast_append)
  then show ?thesis
    by (simp add: getKeyPattern_def include_match_def tail_match_def)
qed

lemma include_key_not_length: "include_match key \<noteq> None \<Longrightarrow> key \<noteq> ''length''"
  by (auto simp: include_match_def)

lemma delete_prop_gone:
  assumes "delete_prop r1 key = Some r2" and "key \<noteq> ''length''"
  shows "\<not> has_prop r2 key"
proof (cases r1)
  case (Obj kvs)
  with assms show ?thesis by auto
next
  case (Arr xs)
  with assms show ?thesis by (auto split: option.splits if_splits)
qed (use assms in auto)

text \<open>
  Claim C5, amended. When the merged content of an inclusion is a map, \<open>handleInclude\<close>
  retains the keys that match the pattern of the directive key (all keys when the key
  carries none), merges them into the surrounding object with the deep merge of lodash,
  deletes the directive key, and returns the surrounding object, which then has no
  property of that name.
\<close>

theorem handleInclude_map:
  assumes "includeMerged n e m key val file jsonPath = ok (Some (Obj kvs, m2))"
    and "include_match key \<noteq> None"
    and "lodash_merge ret (filterObject e (Obj kvs) (getKeyPattern key)) = Some r1"
    and "delete_prop r1 key = Some r2"
  shows "handleInclude (Suc n) e m ret key val file jsonPath = ok ((r2, r2), m2)
         \<and> \<not> has_prop r2 key
         \<and> filterObject e (Obj kvs) (getKeyPattern key) =
             (case getKeyPattern key of
                None \<Rightarrow> Obj kvs
              | Some pat \<Rightarrow> Obj (filter (\<lambda>(k, x). regex_test e pat k) kvs))"
proof -
  have "handleInclude (Suc n) e m ret key val file jsonPath = ok ((r2, r2), m2)"
    using assms by (simp add: handleInclude_stages placeInclude_def)
  moreover have "\<not> has_prop r2 key"
    using assms(2,4) by (simp add: delete_prop_gone include_key_not_length)
  moreover have "filterObject e (Obj kvs) (getKeyPattern key) =
             (case getKeyPattern key of
                None \<Rightarrow> Obj kvs
              | Some pat \<Rightarrow> Obj (filter (\<lambda>(k, x). regex_test e pat k) kvs))"
    by (simp add: filterObject_def split: option.splits)
  ultimately show ?thesis by simp
qed

text \<open>
  The file \<^verbatim>\<open>props.yaml\<close> holds the keys \<^verbatim>\<open>info\<close>, \<^verbatim>\<open>id\<close>, \<^verbatim>\<open>idx\<close> and
  \<^verbatim>\<open>name\<close>; the directive \<^verbatim>\<open>$include/^i/\<close> keeps the first three, and \<^verbatim>\<open>info\<close>
  is merged into the \<^verbatim>\<open>info\<close> that is there.
\<close>

theorem handleInclude_map_witness:
  "handleInclude (Suc 19) sample_env (new_manager [])
     (Obj [(''info'', Obj [(''version'', Str ''1'')]), (''$include/^i/'', Str ''props.yaml'')])
     ''$include/^i/'' (Str ''props.yaml'') ''/d/root.yaml'' ''$''
   = ok ((Obj [(''info'', Obj [(''version'', Str ''1''), (''title'', Str ''T'')]),
               (''id'', Num 1), (''idx'', Num 2)],
          Obj [(''info'', Obj [(''version'', Str ''1''), (''title'', Str ''T'')]),
               (''id'', Num 1), (''idx'', Num 2)]),
         new_manager [])
   \<and> \<not> has_prop (Obj [(''info'', Obj [(''version'', Str ''1''), (''title'', Str ''T'')]),
                        (''id'', Num 1), (''idx'', Num 2)]) ''$include/^i/''"
proof -
  let ?ret = "Obj [(''info'', Obj [(''version'', Str ''1'')]), (''$include/^i/'', Str ''props.yaml'')]"
  let ?kvs = "[(''info'', Obj [(''title'', Str ''T'')]), (''id'', Num 1), (''idx'', Num 2),
               (''name'', Str ''n'')]"
  let ?r1 = "Obj [(''info'', Obj [(''version'', Str ''1''), (''title'', Str ''T'')]),
                  (''$include/^i/'', Str ''props.yaml''), (''id'', Num 1), (''idx'', Num 2)]"
  let ?r2 = "Obj [(''info'', Obj [(''version'', Str ''1''), (''title'', Str ''T'')]),
                  (''id'', Num 1), (''idx'', Num 2)]"
  have h1: "includeMerged 19 sample_env (new_manager []) ''$include/^i/'' (Str ''props.yaml'')
              ''/d/root.yaml'' ''$'' = ok (Some (Obj ?kvs, new_manager []))"
    by code_simp
  have h2: "include_match ''$include/^i/'' \<noteq> None" by code_simp
  have h3: "lodash_merge ?ret (filterObject sample_env (Obj ?kvs) (getKeyPattern ''$include/^i/''))
              = Some ?r1"
    by code_simp
  have h4: "delete_prop ?r1 ''$include/^i/'' = Some ?r2" by code_simp
  from handleInclude_map [OF h1 h2 h3 h4] show ?thesis by simp
qed

text \<open>
  Claim C5 as stated fails there: a shallow merge would replace the \<^verbatim>\<open>info\<close> of the
  surrounding map by the included one and lose \<^verbatim>\<open>version\<close>.
\<close>

theorem include_map_not_shallow_counterexample:
  "map_option (map_sum id (Some \<circ> fst \<circ> fst))
     (handleInclude 20 sample_env (new_manager [])
        (Obj [(''info'', Obj [(''version'', Str ''1'')]), (''$include/^i/'', Str ''props.yaml'')])
        ''$include/^i/'' (Str ''props.yaml'') ''/d/root.yaml'' ''$'')
   \<noteq> ok (spec_place_map sample_env
             (Obj [(''info'', Obj [(''version'', Str ''1'')]), (''$include/^i/'', Str ''props.yaml'')])
             ''$include/^i/''
             (Obj [(''info'', Obj [(''title'', Str ''T'')]), (''id'', Num 1), (''idx'', Num 2),
                   (''name'', Str ''n'')]))
   \<and> spec_place_map sample_env
         (Obj [(''info'', Obj [(''version'', Str ''1'')]), (''$include/^i/'', Str ''props.yaml'')])
         ''$include/^i/''
         (Obj [(''info'', Obj [(''title'', Str ''T'')]), (''id'', Num 1), (''idx'', Num 2),
               (''name'', Str ''n'')])
     = Some (Obj [(''info'', Obj [(''title'', Str ''T'')]), (''id'', Num 1), (''idx'', Num 2)])"
  by code_simp

section \<open>Registration and repeated merging\<close>






section \<open>The components section of the result\<close>

lemma map_of_upd_entry: "map_of (upd_entry k v kvs) = (map_of kvs)(k \<mapsto> v)"
  by (induction kvs) auto

lemma fst_upd_entry: "fst ` set (upd_entry k v kvs) = insert k (fst ` set kvs)"
proof (induction kvs)
  case Nil
  then show ?case by simp
next
  case (Cons a kvs)
  then show ?case by (cases a) (simp add: insert_commute)
qed

text \<open>One assignment of the merge on a map: the key is set unless the value is \<open>undefined\<close> and the key is there.\<close>

lemma assignMergeValue_Obj:
  "assignMergeValue (Obj d) k x =
     Some (Obj (if x \<noteq> Undefined \<or> \<not> has_prop (Obj d) k then upd_entry k x d else d))"
  by (simp add: assignMergeValue_def)

lemma get_prop_assigned:
  "get_prop (Obj (if x \<noteq> Undefined \<or> \<not> has_prop (Obj d) k then upd_entry k x d else d)) k' =
     (if k' = k then (if x \<noteq> Undefined \<or> \<not> has_prop (Obj d) k then x else get_prop (Obj d) k)
      else get_prop (Obj d) k')"
  by (simp add: map_of_upd_entry)

lemma has_prop_assigned:
  "has_prop (Obj (if x \<noteq> Undefined \<or> \<not> has_prop (Obj d) k then upd_entry k x d else d)) k' =
     (k' = k \<or> has_prop (Obj d) k')"
  by (auto simp: fst_upd_entry)

lemma mergeProps_step:
  "mergeProps (Obj d) ((k, sv) # kvs) =
     (case entry_value (Obj d) k sv of
        None \<Rightarrow> None
      | Some x \<Rightarrow>
          mergeProps (Obj (if x \<noteq> Undefined \<or> \<not> has_prop (Obj d) k then upd_entry k x d else d)) kvs)"
  by (simp add: entry_value_def assignMergeValue_Obj split: option.splits)

lemma mergeProps_Obj:
  "mergeProps (Obj d) kvs = Some r \<Longrightarrow> \<exists>d'. r = Obj d'"
proof (induction kvs arbitrary: d)
  case Nil
  then show ?case by auto
next
  case (Cons a kvs)
  obtain k sv where a: "a = (k, sv)" by (cases a)
  from Cons.prems show ?case
    unfolding a mergeProps_step
    by (auto split: option.splits dest: Cons.IH)
qed

text \<open>Keys the source does not have keep their values.\<close>

lemma mergeProps_other_key:
  "mergeProps (Obj d) kvs = Some r \<Longrightarrow> k \<notin> fst ` set kvs
     \<Longrightarrow> get_prop r k = get_prop (Obj d) k \<and> has_prop r k = has_prop (Obj d) k"
proof (induction kvs arbitrary: d)
  case Nil
  then show ?case by simp
next
  case (Cons a kvs)
  obtain k0 sv where a: "a = (k0, sv)" by (cases a)
  from Cons.prems(2) have ne: "k \<noteq> k0" and nin: "k \<notin> fst ` set kvs" by (auto simp: a)
  from Cons.prems(1) obtain x where
    x: "entry_value (Obj d) k0 sv = Some x" and
    rest: "mergeProps (Obj (if x \<noteq> Undefined \<or> \<not> has_prop (Obj d) k0 then upd_entry k0 x d else d)) kvs
             = Some r"
    unfolding a mergeProps_step by (auto split: option.splits)
  from Cons.IH [OF rest nin] ne show ?case
    unfolding get_prop_assigned has_prop_assigned by simp
qed

text \<open>
  One level of the merge into a map, for a source with distinct keys: under a key of the
  source the result has what that entry contributes, except that \<open>undefined\<close> does not
  replace a value that is there.
\<close>

lemma mergeProps_source_key:
  "mergeProps (Obj d) kvs = Some r \<Longrightarrow> distinct (map fst kvs) \<Longrightarrow> map_of kvs k = Some sv
     \<Longrightarrow> \<exists>x. entry_value (Obj d) k sv = Some x
            \<and> get_prop r k = (if x \<noteq> Undefined \<or> \<not> has_prop (Obj d) k then x
                               else get_prop (Obj d) k)"
proof (induction kvs arbitrary: d)
  case Nil
  then show ?case by simp
next
  case (Cons a kvs)
  obtain k0 sv0 where a: "a = (k0, sv0)" by (cases a)
  from Cons.prems(1) obtain x where
    x: "entry_value (Obj d) k0 sv0 = Some x" and
    rest: "mergeProps (Obj (if x \<noteq> Undefined \<or> \<not> has_prop (Obj d) k0 then upd_entry k0 x d else d)) kvs
             = Some r"
    unfolding a mergeProps_step by (auto split: option.splits)
  from Cons.prems(2) have nin: "k0 \<notin> fst ` set kvs" and dist: "distinct (map fst kvs)"
    by (simp_all add: a)
  show ?case
  proof (cases "k = k0")
    case True
    with Cons.prems(3) have sv: "sv = sv0" by (simp add: a)
    from mergeProps_other_key [OF rest nin] x show ?thesis
      unfolding get_prop_assigned True sv by simp
  next
    case False
    with Cons.prems(3) have m: "map_of kvs k = Some sv" by (simp add: a)
    let ?d1 = "if x \<noteq> Undefined \<or> \<not> has_prop (Obj d) k0 then upd_entry k0 x d else d"
    from False have g1: "get_prop (Obj ?d1) k = get_prop (Obj d) k"
      unfolding get_prop_assigned by simp
    from False have h1: "has_prop (Obj ?d1) k = has_prop (Obj d) k"
      unfolding has_prop_assigned by simp
    have e1: "entry_value (Obj ?d1) k sv = entry_value (Obj d) k sv"
      unfolding entry_value_def g1 ..
    from Cons.IH [OF rest dist m] show ?thesis
      unfolding g1 h1 e1 .
  qed
qed

text \<open>
  The deep version: along a path through maps of the source that ends in a scalar, the
  result of the merge has the source's value, whatever the destination had there.
\<close>

lemma baseMerge_source_wins:
  "wins_path dst src ks \<Longrightarrow> baseMerge (merge_dest dst) src = Some r
     \<Longrightarrow> get_path r ks = get_path src ks"
proof (induction ks arbitrary: dst src r)
  case Nil
  then show ?case by simp
next
  case (Cons k ks)
  from Cons.prems(1) obtain s sv where
    src: "src = Obj s" and dist: "distinct (map fst s)" and na: "\<not> isArray dst"
    and sv: "map_of s k = Some sv"
    and leaf: "ks = [] \<Longrightarrow> scalar sv"
    and deep: "ks \<noteq> [] \<Longrightarrow> wins_path (get_prop (merge_dest dst) k) sv ks"
    by (auto split: node.splits option.splits if_splits)
  from na obtain d where d: "merge_dest dst = Obj d"
    by (cases dst) (auto simp: merge_dest_def)
  from Cons.prems(2) have mp: "mergeProps (Obj d) s = Some r"
    by (simp add: src d)
  from mergeProps_source_key [OF mp dist sv] obtain x where
    x: "entry_value (Obj d) k sv = Some x" and
    g: "get_prop r k = (if x \<noteq> Undefined \<or> \<not> has_prop (Obj d) k then x else get_prop (Obj d) k)"
    by blast
  show ?case
  proof (cases "ks = []")
    case True
    with leaf x g show ?thesis
      by (auto simp: scalar_def entry_value_def unhole_def src sv split: if_splits)
  next
    case False
    from deep [OF False] obtain s' where sv': "sv = Obj s'" and na': "\<not> isArray (get_prop (Obj d) k)"
      by (cases ks; cases sv) (auto simp: d)
    have mt: "mergeTarget (get_prop (Obj d) k) sv = merge_dest (get_prop (Obj d) k)"
      by (simp add: mergeTarget_def merge_dest_def sv')
    have io: "isObject sv" by (simp add: sv')
    from x have bm: "baseMerge (merge_dest (get_prop (Obj d) k)) sv = Some x"
      unfolding entry_value_def mt using io by (simp only: if_True)
    from na' obtain d' where d': "merge_dest (get_prop (Obj d) k) = Obj d'"
      by (cases "get_prop (Obj d) k") (auto simp: merge_dest_def)
    from bm have "mergeProps (Obj d') s' = Some x"
      unfolding d' sv' by simp
    then have "\<exists>d''. x = Obj d''"
      by (rule mergeProps_Obj)
    then have "x \<noteq> Undefined" by auto
    with g have "get_prop r k = x" by simp
    moreover have "get_path x ks = get_path sv ks"
      using Cons.IH [OF deep [OF False, unfolded d] bm] .
    ultimately show ?thesis by (simp add: src sv)
  qed
qed

lemma lodash_merge_dest:
  "lodash_merge dst (Obj s) = Some c \<Longrightarrow> \<not> isArray dst \<Longrightarrow> baseMerge (merge_dest dst) (Obj s) = Some c"
  by (cases dst) (auto simp: lodash_merge_def merge_dest_def)

lemma lodash_merge_source_wins:
  assumes "lodash_merge dst src = Some c" and "wins_path dst src ks"
  shows "get_path c ks = get_path src ks"
proof -
  from assms(2) obtain s where src: "src = Obj s" and na: "\<not> isArray dst"
    by (cases ks; cases src) auto
  from assms(1) have "baseMerge (merge_dest dst) src = Some c"
    unfolding src using na by (rule lodash_merge_dest)
  with assms(2) show ?thesis by (rule baseMerge_source_wins)
qed

text \<open>
  Claim C1, amended. When \<open>merge\<close> returns, its result is the root as the second pass
  merged it, with the key \<^verbatim>\<open>components\<close> set to the deep merge (lodash) of the merged
  root's own components value, as destination, with the section of the hoisted
  components, as source; every other key of the merged root is as the second pass left
  it. In that deep merge the hoisted side prevails: along every path of the section
  through maps to a scalar, the result has the section's value.
\<close>

theorem merge_components_section:
  assumes "merge n e doc inputFile = ok (out, doc')"
  shows "\<exists>ret1 doc1 m1 kvs m2 c.
           mergeRefs n e (new_manager []) doc (path_resolve_cwd e inputFile) ''$''
             = ok ((ret1, doc1), m1)
         \<and> mergeRefs n e (new_manager (resolve_names e (components m1))) doc1
               (path_resolve_cwd e inputFile) ''$''
             = ok ((Obj kvs, doc'), m2)
         \<and> lodash_merge (get_prop (Obj kvs) ''components'') (getComponentsSection m2) = Some c
         \<and> out = Obj (upd_entry ''components'' c kvs)
         \<and> get_prop out ''components'' = c
         \<and> (\<forall>k. k \<noteq> ''components'' \<longrightarrow> get_prop out k = get_prop (Obj kvs) k)
         \<and> (\<forall>ks. wins_path (get_prop (Obj kvs) ''components'') (getComponentsSection m2) ks
                \<longrightarrow> get_path c ks = get_path (getComponentsSection m2) ks)"
proof -
  from assms obtain ret1 doc1 m1 kvs m2 c where
    p1: "mergeRefs n e (new_manager []) doc (path_resolve_cwd e inputFile) ''$''
           = ok ((ret1, doc1), m1)" and
    p2: "mergeRefs n e (new_manager (resolve_names e (components m1))) doc1
           (path_resolve_cwd e inputFile) ''$'' = ok ((Obj kvs, doc'), m2)" and
    lm: "lodash_merge (get_prop (Obj kvs) ''components'') (getComponentsSection m2) = Some c" and
    out: "out = Obj (upd_entry ''components'' c kvs)"
    by (auto simp: merge_def Let_def bind_def ok_def throw_def or_throw_def
          split: option.splits sum.splits prod.splits node.splits if_splits)
  have g: "get_prop out k = (if k = ''components'' then c else get_prop (Obj kvs) k)" for k
    by (simp add: out map_of_upd_entry)
  have w: "get_path c ks = get_path (getComponentsSection m2) ks"
    if "wins_path (get_prop (Obj kvs) ''components'') (getComponentsSection m2) ks" for ks
    using lm that by (rule lodash_merge_source_wins)
  from p1 p2 lm out g w show ?thesis by auto
qed

text \<open>
  The document \<open>sample_api_doc\<close>: the file's schema is hoisted under the name
  \<^verbatim>\<open>Error\<close>, which the document's own components section has too, and the path
  \<^verbatim>\<open>schemas/Error/type\<close> of the result holds the hoisted value.
\<close>

theorem merge_components_section_witness:
  "merge 30 sample_env sample_api_doc ''api.yaml''
     = ok (Obj [(''a'', Obj [(''$ref'', Str ''#/components/schemas/Error'')]),
                (''components'',
                   Obj [(''schemas'', Obj [(''Error'', Obj [(''type'', Str ''object'')])])])],
           sample_api_doc)
   \<and> wins_path (Obj [(''schemas'', Obj [(''Error'', Obj [(''type'', Str ''string'')])])])
         (getComponentsSection (sample_registry\<lparr>names := [(''/d/Error.yaml'', ''Error'')]\<rparr>))
         [''schemas'', ''Error'', ''type'']
   \<and> get_path
         (get_prop
            (Obj [(''a'', Obj [(''$ref'', Str ''#/components/schemas/Error'')]),
                  (''components'',
                     Obj [(''schemas'', Obj [(''Error'', Obj [(''type'', Str ''object'')])])])])
            ''components'')
         [''schemas'', ''Error'', ''type'']
     = get_path (getComponentsSection (sample_registry\<lparr>names := [(''/d/Error.yaml'', ''Error'')]\<rparr>))
         [''schemas'', ''Error'', ''type'']"
proof -
  let ?out = "Obj [(''a'', Obj [(''$ref'', Str ''#/components/schemas/Error'')]),
                   (''components'',
                      Obj [(''schemas'', Obj [(''Error'', Obj [(''type'', Str ''object'')])])])]"
  let ?kvs = "[(''a'', Obj [(''$ref'', Str ''#/components/schemas/Error'')]),
               (''components'',
                  Obj [(''schemas'', Obj [(''Error'', Obj [(''type'', Str ''string'')])])])]"
  let ?m2 = "sample_registry\<lparr>names := [(''/d/Error.yaml'', ''Error'')]\<rparr>"
  let ?ks = "[''schemas'', ''Error'', ''type'']"
  have h: "merge 30 sample_env sample_api_doc ''api.yaml'' = ok (?out, sample_api_doc)"
    by code_simp
  have e1: "mergeRefs 30 sample_env (new_manager []) sample_api_doc
              (path_resolve_cwd sample_env ''api.yaml'') ''$''
            = ok ((Obj ?kvs, sample_api_doc), sample_registry)"
    by code_simp
  have e2: "mergeRefs 30 sample_env (new_manager (resolve_names sample_env (components sample_registry)))
              sample_api_doc (path_resolve_cwd sample_env ''api.yaml'') ''$''
            = ok ((Obj ?kvs, sample_api_doc), ?m2)"
    by code_simp
  have w: "wins_path (get_prop (Obj ?kvs) ''components'') (getComponentsSection ?m2) ?ks"
    by code_simp
  have gk: "get_prop (Obj ?kvs) ''components''
              = Obj [(''schemas'', Obj [(''Error'', Obj [(''type'', Str ''string'')])])]"
    by simp
  from merge_components_section [OF h] obtain ret1 doc1 m1 kvs m2 c where
    p1: "mergeRefs 30 sample_env (new_manager []) sample_api_doc
           (path_resolve_cwd sample_env ''api.yaml'') ''$'' = ok ((ret1, doc1), m1)" and
    p2: "mergeRefs 30 sample_env (new_manager (resolve_names sample_env (components m1))) doc1
           (path_resolve_cwd sample_env ''api.yaml'') ''$'' = ok ((Obj kvs, sample_api_doc), m2)" and
    gc: "get_prop ?out ''components'' = c" and
    win: "\<forall>ks. wins_path (get_prop (Obj kvs) ''components'') (getComponentsSection m2) ks
            \<longrightarrow> get_path c ks = get_path (getComponentsSection m2) ks"
    by (elim exE conjE) (rule that, assumption+)
  from p1 e1 have "doc1 = sample_api_doc" and "m1 = sample_registry" by simp_all
  with p2 e2 have "kvs = ?kvs" and "m2 = ?m2" by simp_all
  with win w have "get_path c ?ks = get_path (getComponentsSection ?m2) ?ks" by blast
  with gc have "get_path (get_prop ?out ''components'') ?ks = get_path (getComponentsSection ?m2) ?ks"
    by simp
  with h w show ?thesis unfolding gk by blast
qed

text \<open>
  Claim C1 as stated (the entries of the source document win) fails there: the document
  has \<^verbatim>\<open>type: string\<close> under \<^verbatim>\<open>components/schemas/Error\<close>, and the result has the
  \<^verbatim>\<open>type: object\<close> of the hoisted file.
\<close>

theorem merge_hoisted_entry_wins_counterexample:
  "map_option (map_sum id (\<lambda>r. get_path (fst r) [''components'', ''schemas'', ''Error'', ''type'']))
     (merge 30 sample_env sample_api_doc ''api.yaml'')
     = ok (Str ''object'')
   \<and> get_path sample_api_doc [''components'', ''schemas'', ''Error'', ''type''] = Str ''string''"
  by code_simp

end
